theory Spec2Isabelle
  imports Complex_Main
begin

section \<open>Exceptions\<close>

text \<open>
  The exception classes that occur in \<^verbatim>\<open>_subscriber.py\<close>. Every class listed here derives
  from Python's \<^verbatim>\<open>Exception\<close> (the module targets Python 3.7, where
  \<^verbatim>\<open>asyncio.CancelledError\<close> is one too), so a clause \<^verbatim>\<open>except Exception\<close> catches every
  value of the type. \<open>OtherError n\<close> stands for any further class, for instance a fault
  of the transport. An exception object carries its \<^verbatim>\<open>__cause__\<close> and \<^verbatim>\<open>__context__\<close>.
\<close>

datatype exc_class =
    PresentationSessionClosedError
  | ResourceClosedError
  | CancelledError
  | QueueFull
  | QueueEmpty
  | TimeoutError
  | ValueError
  | RuntimeError
  | StopAsyncIteration
  | OtherError nat

datatype pyexc =
  PyExc (exc_class: exc_class) (exc_cause: "pyexc option") (exc_context: "pyexc option")

type_synonym 'a outcome = "pyexc + 'a"

definition new_exc :: "exc_class \<Rightarrow> pyexc" where
  "new_exc c = PyExc c None None"

text \<open>
  A \<^verbatim>\<open>raise\<close> stores the exception that is being handled at that moment, if any, in the
  \<^verbatim>\<open>__context__\<close> of the exception it raises. \<open>new_exc\<close> above is an exception object
  as constructed, or as raised outside every handler; \<open>raise_new\<close> is a new object of
  a class raised while \<open>handled\<close> is being handled. The receive methods of the
  subscriber take what their caller is handling as an argument; the other methods are
  taken as called outside every handler.
\<close>

definition raise_new :: "exc_class \<Rightarrow> pyexc option \<Rightarrow> pyexc" where
  "raise_new c handled = PyExc c None handled"


text \<open>
  What the caller of a receive method is handling when it makes the call, as far as the
  \<^verbatim>\<open>raise\<close> statements of the method can tell: nothing; the very exception object that
  the listener of the subscriber stores; or another exception object (one whose own chain
  of contexts does not lead back to the stored object).
\<close>

datatype handling = NotHandling | HandlingStored | HandlingOther pyexc

definition handled_exception :: "handling \<Rightarrow> pyexc option \<Rightarrow> pyexc option" where
  "handled_exception h stored =
     (case h of
        NotHandling \<Rightarrow> None
      | HandlingStored \<Rightarrow> stored
      | HandlingOther other \<Rightarrow> Some other)"

text \<open>
  \<^verbatim>\<open>raise x from y\<close> raises the object \<open>x\<close> itself with its \<^verbatim>\<open>__cause__\<close> set to \<open>y\<close>. Its
  \<^verbatim>\<open>__context__\<close> becomes the exception that is being handled, unless that is \<open>x\<close> itself
  or nothing, in which cases it stays as it is.
\<close>

definition raise_from :: "pyexc \<Rightarrow> pyexc \<Rightarrow> handling \<Rightarrow> pyexc" where
  "raise_from x y h =
     PyExc (exc_class x) (Some y)
       (case h of
          NotHandling \<Rightarrow> exc_context x
        | HandlingStored \<Rightarrow> exc_context x
        | HandlingOther other \<Rightarrow> Some other)"


definition chained_to :: "pyexc \<Rightarrow> pyexc \<Rightarrow> bool" where
  "chained_to original e = (exc_cause e = Some original \<or> exc_context e = Some original)"

section \<open>The queue of asyncio\<close>

text \<open>
  \<^verbatim>\<open>asyncio.Queue\<close> as far as the module uses it: \<^verbatim>\<open>maxsize\<close> and the items in arrival
  order. A \<^verbatim>\<open>maxsize\<close> of zero or less means the queue never fills.
\<close>

record 'a Queue =
  maxsize :: int
  queue_items :: "'a list"

definition Queue_init :: "int \<Rightarrow> 'a Queue" where
  "Queue_init n = \<lparr>maxsize = n, queue_items = []\<rparr>"

definition qsize :: "'a Queue \<Rightarrow> int" where
  "qsize q = int (length (queue_items q))"

definition Queue_full :: "'a Queue \<Rightarrow> bool" where
  "Queue_full q = (if maxsize q \<le> 0 then False else maxsize q \<le> qsize q)"

definition put_nowait :: "'a \<Rightarrow> 'a Queue \<Rightarrow> 'a Queue outcome" where
  "put_nowait item q =
     (if Queue_full q then Inl (new_exc QueueFull)
      else Inr (q\<lparr>queue_items := queue_items q @ [item]\<rparr>))"

definition get_nowait :: "'a Queue \<Rightarrow> ('a \<times> 'a Queue) outcome" where
  "get_nowait q =
     (case queue_items q of
        [] \<Rightarrow> Inl (new_exc QueueEmpty)
      | item # rest \<Rightarrow> Inr (item, q\<lparr>queue_items := rest\<rparr>))"

section \<open>The listener\<close>

datatype transfer = TransferFrom (fragmented_payload: "nat list list")

text \<open>
  The class is generic in \<^verbatim>\<open>MessageClass\<close>; the type variable \<open>'m\<close> is that class. The
  two \<^verbatim>\<open>assert isinstance\<close> lines of \<^verbatim>\<open>receive_for\<close> check exactly this typing of the
  queued pairs, which the types of the model enforce.
\<close>

record 'm Listener =
  queue :: "('m \<times> transfer) Queue"
  push_count :: int
  overrun_count :: int
  exception :: "pyexc option"

definition Listener_init :: "('m \<times> transfer) Queue \<Rightarrow> 'm Listener" where
  "Listener_init q = \<lparr>queue = q, push_count = 0, overrun_count = 0, exception = None\<rparr>"

definition push :: "'m \<Rightarrow> transfer \<Rightarrow> 'm Listener \<Rightarrow> 'm Listener" where
  "push message tr L =
     (case put_nowait (message, tr) (queue L) of
        Inr q \<Rightarrow> L\<lparr>queue := q, push_count := push_count L + 1\<rparr>
      | Inl QueueFull_raised \<Rightarrow> L\<lparr>overrun_count := overrun_count L + 1\<rparr>)"

text \<open>A run of \<^verbatim>\<open>push\<close> calls with nothing taken from the queue in between.\<close>

definition push_many :: "('m \<times> transfer) list \<Rightarrow> 'm Listener \<Rightarrow> 'm Listener" where
  "push_many xs L = fold (\<lambda>(message, tr). push message tr) xs L"

text \<open>
  Listener objects are shared between a subscriber and the implementation object, so
  they live in a store, addressed by \<open>nat\<close>. Two listeners never compare equal under
  the dataclass equality, because each holds a queue object of its own; an address
  therefore identifies a listener in \<^verbatim>\<open>list.remove\<close> as well.
\<close>

type_synonym 'm heap = "nat \<Rightarrow> 'm Listener"

section \<open>The shared implementation object\<close>

text \<open>
  What a method does to the world outside the objects: a request to cancel a task, a
  call of the finalizer with its argument, a line of the log.
\<close>

datatype effect = CancelTask nat | Finalize "nat list" | Log string

text \<open>
  \<^verbatim>\<open>SubscriberImpl\<close>. The task is held by its identity. The finalizer, the transport's
  \<^verbatim>\<open>receive_until\<close> and \<^verbatim>\<open>pyuavcan.dsdl.deserialize\<close> (already applied to \<^verbatim>\<open>dtype\<close>) are
  collaborators; the functions below take their behaviour as arguments.
\<close>

record SubscriberImpl =
  transport_session :: nat
  deserialization_failure_count :: int
  impl_task :: nat
  listeners :: "nat list"
  impl_closed :: bool

definition SubscriberImpl_init :: "nat \<Rightarrow> nat \<Rightarrow> SubscriberImpl" where
  "SubscriberImpl_init session task =
     \<lparr>transport_session = session, deserialization_failure_count = 0, impl_task = task,
      listeners = [], impl_closed = False\<rparr>"

definition raise_if_closed :: "SubscriberImpl \<Rightarrow> unit outcome" where
  "raise_if_closed impl =
     (if impl_closed impl then Inl (new_exc PresentationSessionClosedError) else Inr ())"

definition add_listener :: "nat \<Rightarrow> SubscriberImpl \<Rightarrow> SubscriberImpl outcome" where
  "add_listener r impl =
     (case raise_if_closed impl of
        Inl e \<Rightarrow> Inl e
      | Inr u \<Rightarrow> Inr (impl\<lparr>listeners := listeners impl @ [r]\<rparr>))"

text \<open>Python's \<^verbatim>\<open>list.remove\<close>: the first occurrence goes, \<^verbatim>\<open>ValueError\<close> if there is none.\<close>

definition list_remove :: "'a \<Rightarrow> 'a list \<Rightarrow> 'a list outcome" where
  "list_remove x xs = (if x \<in> set xs then Inr (remove1 x xs) else Inl (new_exc ValueError))"

text \<open>
  \<^verbatim>\<open>Task.cancel()\<close> of asyncio returns a flag and does not raise; the handlers around it
  in the source only log, and the model has the request as an effect.
\<close>

definition remove_listener ::
  "nat \<Rightarrow> SubscriberImpl \<Rightarrow> unit outcome \<times> SubscriberImpl \<times> effect list" where
  "remove_listener r impl =
     (case (case list_remove r (listeners impl) of
              Inr ls \<Rightarrow> (impl\<lparr>listeners := ls\<rparr>, [])
            | Inl ValueError_raised \<Rightarrow> (impl, [Log ''does not have listener''])) of
        (impl1, logged) \<Rightarrow>
          if length (listeners impl1) = 0 \<and> \<not> impl_closed impl1
          then (Inr (), impl1\<lparr>impl_closed := True\<rparr>, logged @ [CancelTask (impl_task impl1)])
          else (Inr (), impl1, logged))"

definition SubscriberImpl_close ::
  "SubscriberImpl \<Rightarrow> unit outcome \<times> SubscriberImpl \<times> effect list" where
  "SubscriberImpl_close impl =
     (Inr (), impl\<lparr>impl_closed := True\<rparr>, [CancelTask (impl_task impl)])"

subsection \<open>The background task\<close>

text \<open>\<^verbatim>\<open>for rx in self._listeners: rx.push(message, transfer)\<close>\<close>

definition push_all :: "'m \<Rightarrow> transfer \<Rightarrow> nat list \<Rightarrow> 'm heap \<Rightarrow> 'm heap" where
  "push_all message tr ls heap = fold (\<lambda>r h. h(r := push message tr (h r))) ls heap"

text \<open>
  The task is suspended only at \<^verbatim>\<open>await self.transport_session.receive_until(...)\<close>. While
  it is suspended, other tasks may call the methods of the object; then the await either
  returns a transfer or nothing, or raises. An event is one such suspension.
\<close>

datatype impl_call = AddListener nat | RemoveListener nat | Close

fun do_call :: "impl_call \<Rightarrow> SubscriberImpl \<Rightarrow> SubscriberImpl \<times> effect list" where
  "do_call (AddListener r) impl =
     (case add_listener r impl of Inl e \<Rightarrow> (impl, []) | Inr impl1 \<Rightarrow> (impl1, []))"
| "do_call (RemoveListener r) impl = snd (remove_listener r impl)"
| "do_call Close impl = snd (SubscriberImpl_close impl)"

fun do_calls :: "impl_call list \<Rightarrow> SubscriberImpl \<Rightarrow> SubscriberImpl \<times> effect list" where
  "do_calls [] impl = (impl, [])"
| "do_calls (c # cs) impl =
     (case do_call c impl of
        (impl1, effs1) \<Rightarrow> (case do_calls cs impl1 of (impl2, effs2) \<Rightarrow> (impl2, effs1 @ effs2)))"

type_synonym event = "impl_call list \<times> transfer option outcome"

text \<open>
  The two \<^verbatim>\<open>except\<close> clauses around the loop, in the order of the source: a cancellation
  leaves \<^verbatim>\<open>exception\<close> at \<^verbatim>\<open>None\<close>, anything else is recorded.
\<close>

definition loop_except :: "pyexc \<Rightarrow> pyexc option \<times> effect list" where
  "loop_except ex =
     (if exc_class ex = CancelledError then (None, [Log ''Cancelling the subscriber task''])
      else (Some ex, [Log ''Fatal error in the subscriber task'']))"

text \<open>
  The body of \<^verbatim>\<open>_task_function\<close>, from its first statement on; \<open>task_run\<close> below is the
  task that runs it.
\<close>

text \<open>
  The \<^verbatim>\<open>while not self._closed\<close> loop with its \<^verbatim>\<open>try\<close>. The result is the value of the local
  \<^verbatim>\<open>exception\<close> when control leaves the \<^verbatim>\<open>try\<close> statement; \<open>None\<close> as a whole means that
  the events ran out with the task still suspended in the loop.
\<close>

fun task_loop ::
  "(nat list list \<Rightarrow> 'm option outcome) \<Rightarrow> event list \<Rightarrow> SubscriberImpl \<Rightarrow> 'm heap \<Rightarrow>
   effect list \<Rightarrow> (pyexc option \<times> SubscriberImpl \<times> 'm heap \<times> effect list) option" where
  "task_loop deserialize [] impl heap effs =
     (if impl_closed impl then Some (None, impl, heap, effs) else None)"
| "task_loop deserialize ((calls, awaited) # evs) impl heap effs =
     (if impl_closed impl then Some (None, impl, heap, effs)
      else
        (case do_calls calls impl of
           (impl1, effs1) \<Rightarrow>
             (case awaited of
                Inl ex \<Rightarrow>
                  Some (fst (loop_except ex), impl1, heap, effs @ effs1 @ snd (loop_except ex))
              | Inr None \<Rightarrow> task_loop deserialize evs impl1 heap (effs @ effs1)
              | Inr (Some tr) \<Rightarrow>
                  (case deserialize (fragmented_payload tr) of
                     Inl ex \<Rightarrow>
                       Some (fst (loop_except ex), impl1, heap,
                             effs @ effs1 @ snd (loop_except ex))
                   | Inr (Some message) \<Rightarrow>
                       task_loop deserialize evs impl1
                         (push_all message tr (listeners impl1) heap) (effs @ effs1)
                   | Inr None \<Rightarrow>
                       task_loop deserialize evs
                         (impl1\<lparr>deserialization_failure_count :=
                                  deserialization_failure_count impl1 + 1\<rparr>)
                         heap (effs @ effs1)))))"

text \<open>
  The code after the loop. \<open>finalizer\<close> says what the call of the finalizer raises, if
  anything.
\<close>

definition task_exit ::
  "(nat list \<Rightarrow> pyexc option) \<Rightarrow> pyexc option \<Rightarrow> SubscriberImpl \<Rightarrow> 'm heap \<Rightarrow>
   SubscriberImpl \<times> 'm heap \<times> effect list" where
  "task_exit finalizer exception0 impl heap =
     (let impl1 = impl\<lparr>impl_closed := True\<rparr>;
          session_list = [transport_session impl1];
          exception1 = (case finalizer session_list of Some ex \<Rightarrow> Some ex | None \<Rightarrow> exception0);
          logged = (case finalizer session_list of
                      Some ex \<Rightarrow> [Log ''Failed to finalize''] | None \<Rightarrow> []);
          exception2 = (case exception1 of
                          Some ex \<Rightarrow> ex | None \<Rightarrow> new_exc PresentationSessionClosedError);
          heap1 = fold (\<lambda>r h. h(r := (h r)\<lparr>exception := Some exception2\<rparr>)) (listeners impl1) heap
      in (impl1, heap1, Finalize session_list # logged))"

definition task_function ::
  "(nat list \<Rightarrow> pyexc option) \<Rightarrow> (nat list list \<Rightarrow> 'm option outcome) \<Rightarrow> event list \<Rightarrow>
   SubscriberImpl \<Rightarrow> 'm heap \<Rightarrow> (SubscriberImpl \<times> 'm heap \<times> effect list) option" where
  "task_function finalizer deserialize evs impl heap =
     (case task_loop deserialize evs impl heap [] of
        None \<Rightarrow> None
      | Some (exception0, impl1, heap1, effs1) \<Rightarrow>
          (case task_exit finalizer exception0 impl1 heap1 of
             (impl2, heap2, effs2) \<Rightarrow> Some (impl2, heap2, effs1 @ effs2)))"

text \<open>
  The task that \<^verbatim>\<open>__init__\<close> creates for \<^verbatim>\<open>_task_function\<close> (line 275). The event loop
  gives it its first step only later; \<open>before\<close> are the calls that other tasks make on
  the object until then. If one of them requests the cancellation of the task, the task
  ends as cancelled without ever entering the body of \<^verbatim>\<open>_task_function\<close>: nothing of the
  loop or of the code after it runs. Otherwise the body runs as above.
\<close>

definition cancelled_before_start :: "SubscriberImpl \<Rightarrow> impl_call list \<Rightarrow> bool" where
  "cancelled_before_start impl before =
     (CancelTask (impl_task impl) \<in> set (snd (do_calls before impl)))"

definition task_run ::
  "(nat list \<Rightarrow> pyexc option) \<Rightarrow> (nat list list \<Rightarrow> 'm option outcome) \<Rightarrow> impl_call list \<Rightarrow>
   event list \<Rightarrow> SubscriberImpl \<Rightarrow> 'm heap \<Rightarrow> (SubscriberImpl \<times> 'm heap \<times> effect list) option" where
  "task_run finalizer deserialize before evs impl heap =
     (case do_calls before impl of
        (impl0, effs0) \<Rightarrow>
          if CancelTask (impl_task impl) \<in> set effs0 then Some (impl0, heap, effs0)
          else
            (case task_function finalizer deserialize evs impl0 heap of
               None \<Rightarrow> None
             | Some (impl2, heap2, effs2) \<Rightarrow> Some (impl2, heap2, effs0 @ effs2)))"

text \<open>
  The fault that ends the loop in the pass that is resumed with \<open>awaited\<close>, in the words
  of the claim: the exception that the await or the deserializer raises there, unless it
  is a cancellation; none if nothing is raised.
\<close>

definition triggering_fault ::
  "(nat list list \<Rightarrow> 'm option outcome) \<Rightarrow> transfer option outcome \<Rightarrow> pyexc option" where
  "triggering_fault deserialize awaited =
     (case awaited of
        Inl ex \<Rightarrow> if exc_class ex = CancelledError then None else Some ex
      | Inr None \<Rightarrow> None
      | Inr (Some tr) \<Rightarrow>
          (case deserialize (fragmented_payload tr) of
             Inl ex \<Rightarrow> if exc_class ex = CancelledError then None else Some ex
           | Inr decoded \<Rightarrow> None))"

text \<open>
  The value the exit code stores in the listeners, as a function of what the loop left
  in \<^verbatim>\<open>exception\<close> and of what the finalizer raised.
\<close>

definition terminal_failure :: "pyexc option \<Rightarrow> pyexc option \<Rightarrow> pyexc" where
  "terminal_failure loop_exception finalizer_exception =
     (case finalizer_exception of
        Some ex \<Rightarrow> ex
      | None \<Rightarrow>
          (case loop_exception of
             Some ex \<Rightarrow> ex | None \<Rightarrow> new_exc PresentationSessionClosedError))"

definition finalizer_calls :: "effect list \<Rightarrow> nat list list" where
  "finalizer_calls effs = concat (map (\<lambda>e. case e of Finalize a \<Rightarrow> [a] | _ \<Rightarrow> []) effs)"

section \<open>The subscriber\<close>

text \<open>
  \<^verbatim>\<open>Subscriber\<close>: the handle of one consumer. \<open>sub_rx\<close> is the address of its listener,
  \<open>maybe_task\<close> the identity of the handler task, if one was started.
\<close>

record Subscriber =
  sub_closed :: bool
  sub_rx :: nat
  maybe_task :: "nat option"

text \<open>
  The constructor. \<open>addr\<close> is the address at which the new listener object is
  allocated. \<^verbatim>\<open>int(queue_capacity)\<close> is the identity on the integers the signature asks
  for.
\<close>

definition Subscriber_init ::
  "nat \<Rightarrow> int option \<Rightarrow> SubscriberImpl \<Rightarrow> 'm heap \<Rightarrow>
   Subscriber outcome \<times> SubscriberImpl \<times> 'm heap" where
  "Subscriber_init addr queue_capacity impl heap =
     (case (case queue_capacity of
              None \<Rightarrow> Inr 0
            | Some n \<Rightarrow> if n < 1 then Inl (new_exc ValueError) else Inr n) of
        Inl ex \<Rightarrow> (Inl ex, impl, heap)
      | Inr capacity \<Rightarrow>
          (case add_listener addr impl of
             Inl ex \<Rightarrow> (Inl ex, impl, heap(addr := Listener_init (Queue_init capacity)))
           | Inr impl1 \<Rightarrow>
               (Inr \<lparr>sub_closed = False, sub_rx = addr, maybe_task = None\<rparr>, impl1,
                heap(addr := Listener_init (Queue_init capacity)))))"

text \<open>
  \<^verbatim>\<open>receive_in_background\<close>, without the body of the task it starts: an earlier task is
  cancelled and the new one, \<open>new_task\<close>, is remembered.
\<close>

definition receive_in_background :: "nat \<Rightarrow> Subscriber \<Rightarrow> Subscriber \<times> effect list" where
  "receive_in_background new_task s =
     (s\<lparr>maybe_task := Some new_task\<rparr>,
      (case maybe_task s of Some old \<Rightarrow> [CancelTask old] | None \<Rightarrow> []))"

text \<open>
  \<^verbatim>\<open>_raise_if_closed_or_failed\<close>. \<open>h\<close> says what the caller is handling. The second
  \<^verbatim>\<open>raise\<close> raises the stored exception object itself, so the new cause and context are
  seen through the listener afterwards. (The exit code of the task stores one and the same
  object in all listeners registered then; the record of a listener shows the object as
  seen through that listener's reference.)
\<close>

definition raise_if_closed_or_failed ::
  "handling \<Rightarrow> Subscriber \<Rightarrow> 'm Listener \<Rightarrow> unit outcome \<times> Subscriber \<times> 'm Listener" where
  "raise_if_closed_or_failed h s L =
     (if sub_closed s
      then (Inl (raise_new PresentationSessionClosedError (handled_exception h (exception L))), s, L)
      else
        (case exception L of
           Some ex \<Rightarrow>
             (Inl (raise_from ex (new_exc RuntimeError) h), s\<lparr>sub_closed := True\<rparr>,
              L\<lparr>exception := Some (raise_from ex (new_exc RuntimeError) h)\<rparr>)
         | None \<Rightarrow> (Inr (), s, L)))"

text \<open>
  A caller suspends only in \<^verbatim>\<open>await asyncio.wait_for(self._rx.queue.get(), timeout)\<close>.
  While it is suspended, the background task may push to the listener or store its
  terminal failure there. Then the caller is resumed: with the head of the queue, or,
  the queue being still empty, with the timeout expired; or, its own task having been
  cancelled meanwhile, with the cancellation. In the last case the inner
  \<^verbatim>\<open>get()\<close> may have taken the head of the queue already (\<open>taken\<close>); that pair is lost.
\<close>

datatype suspension = WaitFor real

datatype 'm interim = Pushed 'm transfer | Failed pyexc

datatype 'm wait = Resumed "'m interim list" | Cancelled "'m interim list" bool

fun interim_apply :: "'m interim \<Rightarrow> 'm Listener \<Rightarrow> 'm Listener" where
  "interim_apply (Pushed message tr) L = push message tr L"
| "interim_apply (Failed ex) L = L\<lparr>exception := Some ex\<rparr>"

definition take_head :: "'m Listener \<Rightarrow> 'm Listener" where
  "take_head L =
     (case get_nowait (queue L) of Inl QueueEmpty_raised \<Rightarrow> L | Inr (item, q) \<Rightarrow> L\<lparr>queue := q\<rparr>)"

definition wait_for_get :: "'m wait \<Rightarrow> 'm Listener \<Rightarrow> ('m \<times> transfer) outcome \<times> 'm Listener" where
  "wait_for_get w L =
     (case w of
        Cancelled acts taken \<Rightarrow>
          (Inl (new_exc CancelledError),
           if taken then take_head (fold interim_apply acts L) else fold interim_apply acts L)
      | Resumed acts \<Rightarrow>
          (case get_nowait (queue (fold interim_apply acts L)) of
             Inl QueueEmpty_raised \<Rightarrow> (Inl (new_exc TimeoutError), fold interim_apply acts L)
           | Inr (item, q) \<Rightarrow> (Inr item, (fold interim_apply acts L)\<lparr>queue := q\<rparr>)))"

text \<open>
  \<^verbatim>\<open>receive_for\<close>. The last component of the result lists the suspensions of the call.
\<close>

definition receive_for ::
  "real \<Rightarrow> 'm wait \<Rightarrow> handling \<Rightarrow> Subscriber \<Rightarrow> 'm Listener \<Rightarrow>
   ('m \<times> transfer) option outcome \<times> Subscriber \<times> 'm Listener \<times> suspension list" where
  "receive_for timeout w h s L =
     (case raise_if_closed_or_failed h s L of
        (Inl ex, s1, L0) \<Rightarrow> (Inl ex, s1, L0, [])
      | (Inr u, s1, L0) \<Rightarrow>
          if timeout > 0 then
            (case wait_for_get w L of
               (Inl ex, L1) \<Rightarrow>
                 if exc_class ex = QueueEmpty \<or> exc_class ex = TimeoutError
                 then (Inr None, s1, L1, [WaitFor timeout])
                 else (Inl ex, s1, L1, [WaitFor timeout])
             | (Inr item, L1) \<Rightarrow> (Inr (Some item), s1, L1, [WaitFor timeout]))
          else
            (case get_nowait (queue L) of
               Inl ex \<Rightarrow>
                 if exc_class ex = QueueEmpty \<or> exc_class ex = TimeoutError
                 then (Inr None, s1, L, [])
                 else (Inl ex, s1, L, [])
             | Inr (item, q) \<Rightarrow> (Inr (Some item), s1, L\<lparr>queue := q\<rparr>, [])))"

definition receive_until ::
  "real \<Rightarrow> real \<Rightarrow> 'm wait \<Rightarrow> handling \<Rightarrow> Subscriber \<Rightarrow> 'm Listener \<Rightarrow>
   ('m \<times> transfer) option outcome \<times> Subscriber \<times> 'm Listener \<times> suspension list" where
  "receive_until monotonic_deadline now w h s L =
     receive_for (monotonic_deadline - now) w h s L"

definition RECEIVE_TIMEOUT :: real where
  "RECEIVE_TIMEOUT = 1"

text \<open>
  \<^verbatim>\<open>receive\<close>: \<^verbatim>\<open>receive_for\<close> until it yields a pair. The list gives what happens during
  each suspension in turn; the result \<open>None\<close> means that the list ran out with the call
  still waiting.
\<close>

fun receive ::
  "'m wait list \<Rightarrow> handling \<Rightarrow> Subscriber \<Rightarrow> 'm Listener \<Rightarrow>
   (('m \<times> transfer) outcome \<times> Subscriber \<times> 'm Listener) option" where
  "receive [] h s L =
     (case raise_if_closed_or_failed h s L of
        (Inl ex, s1, L1) \<Rightarrow> Some (Inl ex, s1, L1)
      | (Inr u, s1, L1) \<Rightarrow> None)"
| "receive (w # ws) h s L =
     (case receive_for RECEIVE_TIMEOUT w h s L of
        (Inl ex, s1, L1, susp) \<Rightarrow> Some (Inl ex, s1, L1)
      | (Inr (Some out), s1, L1, susp) \<Rightarrow> Some (Inr out, s1, L1)
      | (Inr None, s1, L1, susp) \<Rightarrow> receive ws h s1 L1)"


definition Subscriber_close ::
  "Subscriber \<Rightarrow> SubscriberImpl \<Rightarrow>
   unit outcome \<times> Subscriber \<times> SubscriberImpl \<times> effect list" where
  "Subscriber_close s impl =
     (if \<not> sub_closed s then
        (case remove_listener (sub_rx s) impl of
           (Inl ex, impl1, effs) \<Rightarrow> (Inl ex, s\<lparr>sub_closed := True\<rparr>, impl1, effs)
         | (Inr u, impl1, effs) \<Rightarrow>
             (case maybe_task s of
                Some t \<Rightarrow>
                  (Inr (), s\<lparr>sub_closed := True, maybe_task := None\<rparr>, impl1,
                   effs @ [CancelTask t])
              | None \<Rightarrow> (Inr (), s\<lparr>sub_closed := True\<rparr>, impl1, effs)))
      else (Inr (), s, impl, []))"

section \<open>What happens to one listener\<close>

text \<open>
  The writes of the module to a listener object: \<^verbatim>\<open>push\<close> by the loop, the assignment of
  \<^verbatim>\<open>exception\<close> by the exit code of the task (never \<^verbatim>\<open>None\<close>, by the line before it),
  the removal of the head of the queue by the owner's \<^verbatim>\<open>receive_for\<close>, and the owner's
  \<^verbatim>\<open>raise ... from\<close> of the stored exception, which sets cause and context on it.
\<close>

datatype 'm listener_op = LoopPush 'm transfer | LoopExit pyexc | OwnerGet | OwnerRaise handling

fun listener_step :: "'m listener_op \<Rightarrow> 'm Listener \<Rightarrow> 'm Listener" where
  "listener_step (LoopPush message tr) L = push message tr L"
| "listener_step (LoopExit ex) L = L\<lparr>exception := Some ex\<rparr>"
| "listener_step OwnerGet L = take_head L"
| "listener_step (OwnerRaise h) L =
     (case exception L of
        Some ex \<Rightarrow> L\<lparr>exception := Some (raise_from ex (new_exc RuntimeError) h)\<rparr>
      | None \<Rightarrow> L)"

definition listener_run :: "'m listener_op list \<Rightarrow> 'm Listener \<Rightarrow> 'm Listener" where
  "listener_run ops L = fold listener_step ops L"

fun is_push :: "'m listener_op \<Rightarrow> bool" where
  "is_push (LoopPush message tr) = True"
| "is_push (LoopExit ex) = False"
| "is_push OwnerGet = False"
| "is_push (OwnerRaise h) = False"

definition push_calls :: "'m listener_op list \<Rightarrow> int" where
  "push_calls ops = int (length (filter is_push ops))"

text \<open>The actions of the loop during a suspension of the owner, as listener operations.\<close>

fun interim_op :: "'m interim \<Rightarrow> 'm listener_op" where
  "interim_op (Pushed message tr) = LoopPush message tr"
| "interim_op (Failed ex) = LoopExit ex"

text \<open>
  The relation between an earlier and a later state of one listener that claim C9 asks
  for: no counter has gone down and a terminal failure, once there, is still there.
\<close>

definition never_regresses :: "'m Listener \<Rightarrow> 'm Listener \<Rightarrow> bool" where
  "never_regresses L L' =
     (push_count L \<le> push_count L' \<and> overrun_count L \<le> overrun_count L'
      \<and> (exception L \<noteq> None \<longrightarrow> exception L' \<noteq> None))"

section \<open>Sample objects\<close>

text \<open>Concrete objects on which the theorems below are exercised.\<close>

definition impl_example :: SubscriberImpl where
  "impl_example =
     \<lparr>transport_session = 7, deserialization_failure_count = 0, impl_task = 3,
      listeners = [5], impl_closed = False\<rparr>"

definition heap_example :: "nat heap" where
  "heap_example = (\<lambda>r. Listener_init (Queue_init 0))"

definition sub_example :: Subscriber where
  "sub_example = \<lparr>sub_closed = False, sub_rx = 5, maybe_task = Some 9\<rparr>"

definition listener_example :: "nat Listener" where
  "listener_example =
     \<lparr>queue = \<lparr>maxsize = 2, queue_items = [(10, TransferFrom []), (20, TransferFrom [])]\<rparr>,
      push_count = 2, overrun_count = 1, exception = None\<rparr>"

definition failed_listener_example :: "nat Listener" where
  "failed_listener_example = listener_example\<lparr>exception := Some (new_exc (OtherError 1))\<rparr>"

definition deserialize_example :: "nat list list \<Rightarrow> nat option outcome" where
  "deserialize_example payload =
     (if payload = [] then Inr None
      else if payload = [[]] then Inl (new_exc (OtherError 2))
      else Inr (Some (length payload)))"

text \<open>What a run of the background task leaves behind, as far as listener 5 and the flags go.\<close>

definition observed ::
  "(SubscriberImpl \<times> nat heap \<times> effect list) option \<Rightarrow>
   (bool \<times> nat list \<times> nat list list \<times> pyexc option) option" where
  "observed result =
     map_option (\<lambda>(impl2, heap2, effs2).
        (impl_closed impl2, listeners impl2, finalizer_calls effs2, exception (heap2 5))) result"

section \<open>The accounting of \<^verbatim>\<open>push\<close>\<close>

lemma push_not_full:
  "\<not> Queue_full (queue L) \<Longrightarrow>
   push m tr L = L\<lparr>queue := (queue L)\<lparr>queue_items := queue_items (queue L) @ [(m, tr)]\<rparr>,
                   push_count := push_count L + 1\<rparr>"
  by (simp add: push_def put_nowait_def)

lemma push_full:
  "Queue_full (queue L) \<Longrightarrow> push m tr L = L\<lparr>overrun_count := overrun_count L + 1\<rparr>"
  by (simp add: push_def put_nowait_def)

lemma push_many_Nil: "push_many [] L = L"
  by (simp add: push_many_def)

lemma push_many_Cons: "push_many ((m, tr) # xs) L = push_many xs (push m tr L)"
  by (simp add: push_many_def)

lemma push_many_bounded:
  assumes "1 \<le> maxsize (queue L)" and "length (queue_items (queue L)) \<le> nat (maxsize (queue L))"
  shows "queue_items (queue (push_many xs L)) =
           queue_items (queue L) @ take (nat (maxsize (queue L)) - length (queue_items (queue L))) xs
       \<and> push_count (push_many xs L) =
           push_count L + int (min (nat (maxsize (queue L)) - length (queue_items (queue L))) (length xs))
       \<and> overrun_count (push_many xs L) =
           overrun_count L + int (length xs - (nat (maxsize (queue L)) - length (queue_items (queue L))))
       \<and> maxsize (queue (push_many xs L)) = maxsize (queue L)
       \<and> exception (push_many xs L) = exception L"
  using assms
proof (induction xs arbitrary: L)
  case Nil
  then show ?case by (simp add: push_many_Nil)
next
  case (Cons x xs)
  obtain m tr where x: "x = (m, tr)" by (cases x)
  show ?case
  proof (cases "Queue_full (queue L)")
    case True
    then have len: "length (queue_items (queue L)) = nat (maxsize (queue L))"
      using Cons.prems by (simp add: Queue_full_def qsize_def split: if_splits)
    have p: "push m tr L = L\<lparr>overrun_count := overrun_count L + 1\<rparr>"
      using True by (rule push_full)
    show ?thesis
      using Cons.IH [of "push m tr L"] Cons.prems len
      by (simp add: x push_many_Cons p)
  next
    case False
    then have len: "length (queue_items (queue L)) < nat (maxsize (queue L))"
      using Cons.prems by (simp add: Queue_full_def qsize_def split: if_splits)
    have p: "push m tr L = L\<lparr>queue := (queue L)\<lparr>queue_items := queue_items (queue L) @ [(m, tr)]\<rparr>,
                   push_count := push_count L + 1\<rparr>"
      using False by (rule push_not_full)
    have "nat (maxsize (queue L)) - length (queue_items (queue L)) =
          Suc (nat (maxsize (queue L)) - Suc (length (queue_items (queue L))))"
      using len by simp
    then show ?thesis
      using Cons.IH [of "push m tr L"] Cons.prems len
      by (simp add: x push_many_Cons p)
  qed
qed

text \<open>
  Claim C2. A push onto a queue that is not full appends the pair and adds one to
  \<^verbatim>\<open>push_count\<close>; a push onto a full queue changes nothing but \<^verbatim>\<open>overrun_count\<close>, which
  grows by one. Hence a new listener of capacity \<open>C \<ge> 1\<close> that is pushed \<open>M > C\<close> pairs
  with none taken out ends with \<^verbatim>\<open>push_count\<close> \<open>= C\<close>, \<^verbatim>\<open>overrun_count\<close> \<open>= M - C\<close> and the first
  \<open>C\<close> pairs in its queue: the newest are dropped.
\<close>

theorem C2_overrun_accounting:
  assumes "1 \<le> C" and "C < int (length xs)"
  shows "(\<not> Queue_full (queue L) \<longrightarrow>
            push m tr L = L\<lparr>queue := (queue L)\<lparr>queue_items := queue_items (queue L) @ [(m, tr)]\<rparr>,
                            push_count := push_count L + 1\<rparr>)
       \<and> (Queue_full (queue L) \<longrightarrow> push m tr L = L\<lparr>overrun_count := overrun_count L + 1\<rparr>)
       \<and> push_count (push_many xs (Listener_init (Queue_init C))) = C
       \<and> overrun_count (push_many xs (Listener_init (Queue_init C))) = int (length xs) - C
       \<and> queue_items (queue (push_many xs (Listener_init (Queue_init C)))) = take (nat C) xs"
proof -
  let ?L0 = "Listener_init (Queue_init C) :: 'a Listener"
  have q: "maxsize (queue ?L0) = C" "queue_items (queue ?L0) = []"
    "push_count ?L0 = 0" "overrun_count ?L0 = 0"
    by (simp_all add: Listener_init_def Queue_init_def)
  have "1 \<le> maxsize (queue ?L0)" "length (queue_items (queue ?L0)) \<le> nat (maxsize (queue ?L0))"
    using assms(1) by (simp_all add: q)
  from push_many_bounded [OF this, of xs] have
    "queue_items (queue (push_many xs ?L0)) = take (nat C) xs"
    "push_count (push_many xs ?L0) = int (min (nat C) (length xs))"
    "overrun_count (push_many xs ?L0) = int (length xs - nat C)"
    by (simp_all add: q)
  moreover have "int (min (nat C) (length xs)) = C" "int (length xs - nat C) = int (length xs) - C"
    using assms by simp_all
  ultimately show ?thesis
    using push_not_full [of L m tr] push_full [of L m tr] by simp
qed

text \<open>Three pairs into a queue of capacity two; one push of each kind.\<close>

theorem C2_overrun_accounting_witness:
  "push_count (push_many [(10::nat, TransferFrom []), (20, TransferFrom []), (30, TransferFrom [])]
                 (Listener_init (Queue_init 2))) = 2
   \<and> overrun_count (push_many [(10::nat, TransferFrom []), (20, TransferFrom []), (30, TransferFrom [])]
                 (Listener_init (Queue_init 2))) = 1
   \<and> queue_items (queue (push_many [(10::nat, TransferFrom []), (20, TransferFrom []), (30, TransferFrom [])]
                 (Listener_init (Queue_init 2)))) = [(10, TransferFrom []), (20, TransferFrom [])]
   \<and> push (30::nat) (TransferFrom []) (Listener_init (Queue_init 2)) =
       \<lparr>queue = \<lparr>maxsize = 2, queue_items = [(30, TransferFrom [])]\<rparr>, push_count = 1,
        overrun_count = 0, exception = None\<rparr>
   \<and> push (30::nat) (TransferFrom [])
        \<lparr>queue = \<lparr>maxsize = 1, queue_items = [(10, TransferFrom [])]\<rparr>, push_count = 1,
         overrun_count = 0, exception = None\<rparr> =
       \<lparr>queue = \<lparr>maxsize = 1, queue_items = [(10, TransferFrom [])]\<rparr>, push_count = 1,
        overrun_count = 1, exception = None\<rparr>"
proof -
  have h: "(1::int) \<le> 2"
    "2 < int (length [(10::nat, TransferFrom []), (20, TransferFrom []), (30, TransferFrom [])])"
    by simp_all
  show ?thesis
    using C2_overrun_accounting [OF h, of "Listener_init (Queue_init 2)" 30 "TransferFrom []"]
      C2_overrun_accounting [OF h, of "\<lparr>queue = \<lparr>maxsize = 1, queue_items = [(10::nat, TransferFrom [])]\<rparr>,
              push_count = 1, overrun_count = 0, exception = None\<rparr>" 30 "TransferFrom []"]
    by (simp add: Listener_init_def Queue_init_def Queue_full_def qsize_def)
qed

lemma listener_run_Nil: "listener_run [] L = L"
  by (simp add: listener_run_def)

lemma listener_run_Cons: "listener_run (x # xs) L = listener_run xs (listener_step x L)"
  by (simp add: listener_run_def)

lemma listener_run_append: "listener_run (xs @ ys) L = listener_run ys (listener_run xs L)"
  by (simp add: listener_run_def)

lemma push_counts:
  "push_count (push m tr L) + overrun_count (push m tr L) = push_count L + overrun_count L + 1"
  by (simp add: push_def put_nowait_def)

lemma listener_step_counts:
  "push_count (listener_step x L) + overrun_count (listener_step x L) =
   push_count L + overrun_count L + (if is_push x then 1 else 0)"
  by (cases x) (simp_all add: push_counts take_head_def split: sum.splits option.splits)

lemma listener_run_counts:
  "push_count (listener_run xs L) + overrun_count (listener_run xs L) =
   push_count L + overrun_count L + push_calls xs"
proof (induction xs arbitrary: L)
  case Nil
  show ?case by (simp add: listener_run_Nil push_calls_def)
next
  case (Cons x xs)
  show ?case
    using Cons.IH [of "listener_step x L"] listener_step_counts [of x L]
    by (simp add: listener_run_Cons push_calls_def)
qed

text \<open>
  Claim C10. Every call of \<^verbatim>\<open>push\<close> adds one to exactly one of the two counters, to
  \<^verbatim>\<open>push_count\<close> exactly when the pair is put into the queue. So after any sequence of
  operations on a listener the two counters together have grown by the number of
  \<^verbatim>\<open>push\<close> calls in it.
\<close>

theorem C10_push_accounting:
  "(if Queue_full (queue L)
    then push m tr L = L\<lparr>overrun_count := overrun_count L + 1\<rparr>
    else push m tr L = L\<lparr>queue := (queue L)\<lparr>queue_items := queue_items (queue L) @ [(m, tr)]\<rparr>,
                          push_count := push_count L + 1\<rparr>)
   \<and> push_count (listener_run xs L) + overrun_count (listener_run xs L) =
       push_count L + overrun_count L + push_calls xs"
  using push_not_full [of L m tr] push_full [of L m tr] listener_run_counts [of xs L]
  by simp

section \<open>Registration of listeners\<close>

text \<open>
  Claim C5. \<^verbatim>\<open>add_listener\<close> raises the closed error on a closed receiver and otherwise
  appends the listener. \<^verbatim>\<open>remove_listener\<close> never raises, whether the receiver is closed
  or the listener was never registered (its absence is logged, the list stays as it is).
  If the removal leaves no listener and the receiver is not closed yet, the call sets the
  closed flag and requests the cancellation of the background task in the same step; in
  every other case it does neither.
\<close>

theorem C5_listener_registration:
  "(impl_closed impl \<longrightarrow> add_listener r impl = Inl (new_exc PresentationSessionClosedError))
   \<and> (\<not> impl_closed impl \<longrightarrow>
        add_listener r impl = Inr (impl\<lparr>listeners := listeners impl @ [r]\<rparr>))
   \<and> fst (remove_listener r impl) = Inr ()
   \<and> listeners (fst (snd (remove_listener r impl))) = remove1 r (listeners impl)
   \<and> (r \<notin> set (listeners impl) \<longrightarrow>
        Log ''does not have listener'' \<in> set (snd (snd (remove_listener r impl))))
   \<and> (remove1 r (listeners impl) = [] \<and> \<not> impl_closed impl \<longrightarrow>
        impl_closed (fst (snd (remove_listener r impl)))
        \<and> CancelTask (impl_task impl) \<in> set (snd (snd (remove_listener r impl))))
   \<and> (\<not> (remove1 r (listeners impl) = [] \<and> \<not> impl_closed impl) \<longrightarrow>
        impl_closed (fst (snd (remove_listener r impl))) = impl_closed impl
        \<and> CancelTask (impl_task impl) \<notin> set (snd (snd (remove_listener r impl))))"
  by (auto simp add: add_listener_def raise_if_closed_def remove_listener_def list_remove_def
      remove1_idem)

text \<open>A closed receiver, an open one, and the removal of the only listener.\<close>

theorem C5_listener_registration_witness:
  "add_listener 6 (impl_example\<lparr>impl_closed := True\<rparr>) = Inl (new_exc PresentationSessionClosedError)
   \<and> add_listener 6 impl_example = Inr (impl_example\<lparr>listeners := [5, 6]\<rparr>)
   \<and> remove_listener 6 (impl_example\<lparr>impl_closed := True\<rparr>) =
       (Inr (), impl_example\<lparr>impl_closed := True\<rparr>, [Log ''does not have listener''])
   \<and> impl_closed (fst (snd (remove_listener 5 impl_example)))
   \<and> CancelTask 3 \<in> set (snd (snd (remove_listener 5 impl_example)))
   \<and> listeners (fst (snd (remove_listener 5 impl_example))) = []"
  using C5_listener_registration [of "impl_example\<lparr>impl_closed := True\<rparr>" 6]
    C5_listener_registration [of impl_example 6]
    C5_listener_registration [of impl_example 5]
  by (simp add: impl_example_def remove_listener_def list_remove_def)

section \<open>Construction of a subscriber\<close>

text \<open>
  Claim C6 as stated fails at capacity zero: the constructor raises \<^verbatim>\<open>ValueError\<close> and
  neither creates nor registers a listener. And on a closed receiver the constructor
  raises the closed error for every capacity, as \<^verbatim>\<open>add_listener\<close> does.
\<close>

theorem C6_zero_capacity_counterexample:
  "Subscriber_init 5 (Some 0) (SubscriberImpl_init 7 3) heap_example =
     (Inl (new_exc ValueError), SubscriberImpl_init 7 3, heap_example)
   \<and> fst (Subscriber_init 5 (Some 2) ((SubscriberImpl_init 7 3)\<lparr>impl_closed := True\<rparr>)
            heap_example) =
       Inl (new_exc PresentationSessionClosedError)"
  by (simp add: Subscriber_init_def add_listener_def raise_if_closed_def)

text \<open>
  Claim C6, amended. On a receiver that is not closed, a capacity \<open>n \<ge> 1\<close> gives a
  listener whose queue is full exactly from \<open>n\<close> items on; no capacity (\<^verbatim>\<open>None\<close>) gives a
  queue of \<^verbatim>\<open>maxsize\<close> zero, which is never full; and every capacity below one, zero
  included, is refused with \<^verbatim>\<open>ValueError\<close>, the receiver and the store left as they were.
\<close>

theorem C6_queue_capacity:
  assumes "\<not> impl_closed impl"
  shows "(1 \<le> n \<longrightarrow>
            Subscriber_init addr (Some n) impl heap =
              (Inr \<lparr>sub_closed = False, sub_rx = addr, maybe_task = None\<rparr>,
               impl\<lparr>listeners := listeners impl @ [addr]\<rparr>,
               heap(addr := \<lparr>queue = \<lparr>maxsize = n, queue_items = []\<rparr>, push_count = 0,
                              overrun_count = 0, exception = None\<rparr>))
            \<and> Queue_full \<lparr>maxsize = n, queue_items = xs\<rparr> = (n \<le> int (length xs)))
       \<and> Subscriber_init addr None impl heap =
              (Inr \<lparr>sub_closed = False, sub_rx = addr, maybe_task = None\<rparr>,
               impl\<lparr>listeners := listeners impl @ [addr]\<rparr>,
               heap(addr := \<lparr>queue = \<lparr>maxsize = 0, queue_items = []\<rparr>, push_count = 0,
                              overrun_count = 0, exception = None\<rparr>))
       \<and> (Queue_full \<lparr>maxsize = 0, queue_items = xs\<rparr> = False)
       \<and> (n < 1 \<longrightarrow>
            Subscriber_init addr (Some n) impl heap = (Inl (new_exc ValueError), impl, heap))"
  using assms
  by (simp add: Subscriber_init_def add_listener_def raise_if_closed_def Listener_init_def
      Queue_init_def Queue_full_def qsize_def)

text \<open>Capacity two, capacity minus one, and no capacity.\<close>

theorem C6_queue_capacity_witness:
  "Subscriber_init 5 (Some 2) (SubscriberImpl_init 7 3) heap_example =
     (Inr \<lparr>sub_closed = False, sub_rx = 5, maybe_task = None\<rparr>,
      (SubscriberImpl_init 7 3)\<lparr>listeners := [5]\<rparr>,
      heap_example(5 := \<lparr>queue = \<lparr>maxsize = 2, queue_items = []\<rparr>, push_count = 0,
                         overrun_count = 0, exception = None\<rparr>))
   \<and> Queue_full \<lparr>maxsize = 2, queue_items = [1::nat, 2]\<rparr>
   \<and> fst (Subscriber_init 5 (Some (- 1)) (SubscriberImpl_init 7 3) heap_example) =
       Inl (new_exc ValueError)
   \<and> fst (Subscriber_init 5 None (SubscriberImpl_init 7 3) heap_example) =
       Inr \<lparr>sub_closed = False, sub_rx = 5, maybe_task = None\<rparr>"
proof -
  have h: "\<not> impl_closed (SubscriberImpl_init 7 3)"
    by (simp add: SubscriberImpl_init_def)
  show ?thesis
    using C6_queue_capacity [OF h, of 2 5 heap_example "[1::nat, 2]"]
      C6_queue_capacity [OF h, of "- 1" 5 heap_example "[]::nat list"]
    by (simp add: SubscriberImpl_init_def)
qed

section \<open>Closing a subscriber\<close>

text \<open>
  Claim C8 as stated fails for a handle that closed itself: a receive call that finds
  the terminal failure sets the closed flag without detaching anything, and the first
  \<^verbatim>\<open>close\<close> after that does nothing at all. The listener stays registered with the
  receiver, the handler task is neither cancelled nor forgotten.
\<close>

theorem C8_self_closed_handle_counterexample:
  "fst (snd (receive_for 0 (Resumed []) NotHandling sub_example failed_listener_example)) =
     sub_example\<lparr>sub_closed := True\<rparr>
   \<and> Subscriber_close (sub_example\<lparr>sub_closed := True\<rparr>) (impl_example\<lparr>impl_closed := True\<rparr>) =
       (Inr (), sub_example\<lparr>sub_closed := True\<rparr>, impl_example\<lparr>impl_closed := True\<rparr>, [])
   \<and> maybe_task (sub_example\<lparr>sub_closed := True\<rparr>) = Some 9
   \<and> sub_rx sub_example \<in> set (listeners (impl_example\<lparr>impl_closed := True\<rparr>))"
  by (simp add: receive_for_def raise_if_closed_or_failed_def Subscriber_close_def
      sub_example_def failed_listener_example_def listener_example_def impl_example_def)

text \<open>
  Claim C8, amended. \<^verbatim>\<open>Subscriber.close\<close> never raises. On a handle that is still open it
  sets the closed flag, removes the listener from the receiver, requests the cancellation
  of the handler task if there is one (a request only: nothing waits for the task) and
  forgets the task. On a handle that is closed already, by an earlier \<^verbatim>\<open>close\<close> or by
  itself when a receive call found the terminal failure, it changes nothing. Hence a
  second call after any call changes nothing.
\<close>

theorem C8_close_idempotent:
  "fst (Subscriber_close s impl) = Inr ()
   \<and> (\<not> sub_closed s \<longrightarrow>
        Subscriber_close s impl =
          (Inr (), s\<lparr>sub_closed := True, maybe_task := None\<rparr>,
           fst (snd (remove_listener (sub_rx s) impl)),
           snd (snd (remove_listener (sub_rx s) impl))
             @ (case maybe_task s of Some t \<Rightarrow> [CancelTask t] | None \<Rightarrow> []))
        \<and> listeners (fst (snd (snd (Subscriber_close s impl)))) = remove1 (sub_rx s) (listeners impl))
   \<and> (sub_closed s \<longrightarrow> Subscriber_close s impl = (Inr (), s, impl, []))
   \<and> Subscriber_close (fst (snd (Subscriber_close s impl)))
        (fst (snd (snd (Subscriber_close s impl)))) =
       (Inr (), fst (snd (Subscriber_close s impl)), fst (snd (snd (Subscriber_close s impl))), [])"
proof -
  have r: "fst (remove_listener (sub_rx s) impl) = Inr ()"
    "listeners (fst (snd (remove_listener (sub_rx s) impl))) = remove1 (sub_rx s) (listeners impl)"
    by (auto simp add: remove_listener_def list_remove_def remove1_idem)
  obtain u impl1 effs where e: "remove_listener (sub_rx s) impl = (u, impl1, effs)"
    by (cases "remove_listener (sub_rx s) impl")
  with r have u: "u = Inr ()" by simp
  show ?thesis
    using r(2) by (cases "maybe_task s") (simp_all add: Subscriber_close_def e u)
qed

text \<open>An open handle with a handler task, closed twice.\<close>

theorem C8_close_idempotent_witness:
  "Subscriber_close sub_example impl_example =
     (Inr (), \<lparr>sub_closed = True, sub_rx = 5, maybe_task = None\<rparr>,
      impl_example\<lparr>listeners := [], impl_closed := True\<rparr>, [CancelTask 3, CancelTask 9])
   \<and> Subscriber_close \<lparr>sub_closed = True, sub_rx = 5, maybe_task = None\<rparr>
        (impl_example\<lparr>listeners := [], impl_closed := True\<rparr>) =
       (Inr (), \<lparr>sub_closed = True, sub_rx = 5, maybe_task = None\<rparr>,
        impl_example\<lparr>listeners := [], impl_closed := True\<rparr>, [])"
  using C8_close_idempotent [of sub_example impl_example]
    C8_close_idempotent [of "\<lparr>sub_closed = True, sub_rx = 5, maybe_task = None\<rparr>"
      "impl_example\<lparr>listeners := [], impl_closed := True\<rparr>"]
  by (simp add: sub_example_def impl_example_def remove_listener_def list_remove_def)

section \<open>Receiving\<close>

text \<open>
  Claim C3. On an open subscriber whose listener has no terminal failure,
  \<^verbatim>\<open>receive_for\<close> with a timeout \<open>t \<le> 0\<close> does not suspend: its result is the head of the
  queue, taken out, or \<^verbatim>\<open>None\<close> for an empty queue, whatever the rest of the world would
  have done during a suspension, and the list of its suspensions is empty. With \<open>t > 0\<close>
  the one suspension of the call is \<^verbatim>\<open>wait_for\<close> with the timeout \<open>t\<close> itself.
\<close>

theorem C3_nonpositive_timeout:
  assumes "\<not> sub_closed s" and "exception L = None"
  shows "(t \<le> 0 \<longrightarrow>
            receive_for t w h s L =
              (case queue_items (queue L) of
                 [] \<Rightarrow> (Inr None, s, L, [])
               | item # rest \<Rightarrow>
                   (Inr (Some item), s, L\<lparr>queue := (queue L)\<lparr>queue_items := rest\<rparr>\<rparr>, [])))
       \<and> (0 < t \<longrightarrow> snd (snd (snd (receive_for t w h s L))) = [WaitFor t])"
  using assms
  by (auto simp add: receive_for_def raise_if_closed_or_failed_def get_nowait_def new_exc_def
      split: list.splits prod.splits sum.splits)

text \<open>A negative timeout on a filled queue, zero on an empty one, a positive timeout.\<close>

theorem C3_nonpositive_timeout_witness:
  "receive_for (- 1) (Resumed [Pushed 30 (TransferFrom [])]) NotHandling sub_example listener_example =
     (Inr (Some (10, TransferFrom [])), sub_example,
      listener_example\<lparr>queue := \<lparr>maxsize = 2, queue_items = [(20, TransferFrom [])]\<rparr>\<rparr>, [])
   \<and> receive_for 0 (Cancelled [] False) NotHandling sub_example
        (Listener_init (Queue_init 2) :: nat Listener) =
     (Inr None, sub_example, Listener_init (Queue_init 2), [])
   \<and> snd (snd (snd (receive_for (1 / 2) (Cancelled [] False) NotHandling sub_example
                       listener_example))) =
       [WaitFor (1 / 2)]"
proof -
  have h: "\<not> sub_closed sub_example" "exception listener_example = None"
    "exception (Listener_init (Queue_init 2) :: nat Listener) = None"
    by (simp_all add: sub_example_def listener_example_def Listener_init_def)
  show ?thesis
    using C3_nonpositive_timeout [OF h(1) h(2), of "- 1" "Resumed [Pushed 30 (TransferFrom [])]"
        NotHandling]
      C3_nonpositive_timeout [OF h(1) h(3), of 0 "Cancelled [] False" NotHandling]
      C3_nonpositive_timeout [OF h(1) h(2), of "1 / 2" "Cancelled [] False" NotHandling]
    by (simp add: listener_example_def Listener_init_def Queue_init_def)
qed

text \<open>
  Claim C4 as stated fails in its last part. The first call raises the stored failure
  with a \<^verbatim>\<open>RuntimeError\<close> as cause; the next call, made outside every handler, raises a
  new \<^verbatim>\<open>PresentationSessionClosedError\<close> with neither cause nor context, so it is not
  chained to the original fault. And a subscriber that was closed before it looked at
  the failure of its listener raises the closed error at once, never the failure.
\<close>

theorem C4_later_calls_unchained_counterexample:
  "receive_for 0 (Resumed []) NotHandling sub_example failed_listener_example =
     (Inl (PyExc (OtherError 1) (Some (PyExc RuntimeError None None)) None),
      sub_example\<lparr>sub_closed := True\<rparr>,
      failed_listener_example
        \<lparr>exception := Some (PyExc (OtherError 1) (Some (PyExc RuntimeError None None)) None)\<rparr>,
      [])
   \<and> fst (receive_for 0 (Resumed []) NotHandling (sub_example\<lparr>sub_closed := True\<rparr>)
            (failed_listener_example
               \<lparr>exception := Some (PyExc (OtherError 1) (Some (PyExc RuntimeError None None)) None)\<rparr>)) =
       Inl (PyExc PresentationSessionClosedError None None)
   \<and> \<not> chained_to (PyExc (OtherError 1) None None)
          (PyExc PresentationSessionClosedError None None)
   \<and> \<not> chained_to (PyExc (OtherError 1) (Some (PyExc RuntimeError None None)) None)
          (PyExc PresentationSessionClosedError None None)
   \<and> fst (receive_for 0 (Resumed []) NotHandling (sub_example\<lparr>sub_closed := True\<rparr>)
            failed_listener_example) =
       Inl (PyExc PresentationSessionClosedError None None)"
  by (simp add: receive_for_def raise_if_closed_or_failed_def sub_example_def
      failed_listener_example_def listener_example_def new_exc_def chained_to_def
      raise_from_def raise_new_def handled_exception_def)

lemma receive_for_closed:
  "sub_closed s \<Longrightarrow>
   receive_for t w h s L =
     (Inl (raise_new PresentationSessionClosedError (handled_exception h (exception L))), s, L, [])"
  by (simp add: receive_for_def raise_if_closed_or_failed_def)

lemma receive_for_failed:
  "\<not> sub_closed s \<Longrightarrow> exception L = Some ex \<Longrightarrow>
   receive_for t w h s L =
     (Inl (raise_from ex (new_exc RuntimeError) h), s\<lparr>sub_closed := True\<rparr>,
      L\<lparr>exception := Some (raise_from ex (new_exc RuntimeError) h)\<rparr>, [])"
  by (simp add: receive_for_def raise_if_closed_or_failed_def)

lemma receive_closed:
  "sub_closed s \<Longrightarrow>
   receive ws h s L =
     Some (Inl (raise_new PresentationSessionClosedError (handled_exception h (exception L))), s, L)"
  by (cases ws) (simp_all add: receive_for_closed, simp add: raise_if_closed_or_failed_def)

lemma receive_failed:
  "\<not> sub_closed s \<Longrightarrow> exception L = Some ex \<Longrightarrow>
   receive ws h s L =
     Some (Inl (raise_from ex (new_exc RuntimeError) h), s\<lparr>sub_closed := True\<rparr>,
           L\<lparr>exception := Some (raise_from ex (new_exc RuntimeError) h)\<rparr>)"
  by (cases ws) (simp_all add: receive_for_failed, simp add: raise_if_closed_or_failed_def)

text \<open>
  Claim C4, amended. On an open subscriber whose listener carries a terminal failure,
  a receive call (\<^verbatim>\<open>receive_for\<close> with any timeout, or \<^verbatim>\<open>receive\<close>) marks the subscriber
  closed and raises that failure, the stored object itself, with a new \<^verbatim>\<open>RuntimeError\<close> as
  its cause; the listener shows the object with that cause afterwards. Every receive
  call after that raises a new \<^verbatim>\<open>PresentationSessionClosedError\<close> without a cause. The
  code does not chain it to the original fault: its context is what the caller is
  handling while it makes the call, so the original fault only if the call is made
  inside the handler of that fault, and nothing outside every handler.
\<close>

theorem C4_terminal_failure_observed:
  assumes "\<not> sub_closed s" and "exception L = Some ex"
  shows "receive_for t w h s L =
           (Inl (PyExc (exc_class ex) (Some (PyExc RuntimeError None None))
                   (case h of
                      NotHandling \<Rightarrow> exc_context ex
                    | HandlingStored \<Rightarrow> exc_context ex
                    | HandlingOther other \<Rightarrow> Some other)),
            s\<lparr>sub_closed := True\<rparr>,
            L\<lparr>exception :=
                 Some (PyExc (exc_class ex) (Some (PyExc RuntimeError None None))
                         (case h of
                            NotHandling \<Rightarrow> exc_context ex
                          | HandlingStored \<Rightarrow> exc_context ex
                          | HandlingOther other \<Rightarrow> Some other))\<rparr>,
            [])
       \<and> receive ws h s L =
           Some (Inl (PyExc (exc_class ex) (Some (PyExc RuntimeError None None))
                        (case h of
                           NotHandling \<Rightarrow> exc_context ex
                         | HandlingStored \<Rightarrow> exc_context ex
                         | HandlingOther other \<Rightarrow> Some other)),
                 s\<lparr>sub_closed := True\<rparr>,
                 L\<lparr>exception :=
                      Some (PyExc (exc_class ex) (Some (PyExc RuntimeError None None))
                              (case h of
                                 NotHandling \<Rightarrow> exc_context ex
                               | HandlingStored \<Rightarrow> exc_context ex
                               | HandlingOther other \<Rightarrow> Some other))\<rparr>)
       \<and> receive_for t' w' h' (s\<lparr>sub_closed := True\<rparr>) L' =
           (Inl (PyExc PresentationSessionClosedError None
                   (case h' of
                      NotHandling \<Rightarrow> None
                    | HandlingStored \<Rightarrow> exception L'
                    | HandlingOther other \<Rightarrow> Some other)),
            s\<lparr>sub_closed := True\<rparr>, L', [])
       \<and> receive ws' h' (s\<lparr>sub_closed := True\<rparr>) L' =
           Some (Inl (PyExc PresentationSessionClosedError None
                        (case h' of
                           NotHandling \<Rightarrow> None
                         | HandlingStored \<Rightarrow> exception L'
                         | HandlingOther other \<Rightarrow> Some other)),
                 s\<lparr>sub_closed := True\<rparr>, L')"
  using assms
  by (simp add: receive_for_closed receive_for_failed receive_closed receive_failed
      raise_new_def handled_exception_def raise_from_def new_exc_def)

text \<open>A failed listener, read once and then again, outside and inside the handler.\<close>

theorem C4_terminal_failure_observed_witness:
  "receive_for 1 (Cancelled [] False) NotHandling sub_example failed_listener_example =
     (Inl (PyExc (OtherError 1) (Some (PyExc RuntimeError None None)) None),
      sub_example\<lparr>sub_closed := True\<rparr>,
      failed_listener_example
        \<lparr>exception := Some (PyExc (OtherError 1) (Some (PyExc RuntimeError None None)) None)\<rparr>,
      [])
   \<and> fst (receive_for 0 (Resumed []) NotHandling (sub_example\<lparr>sub_closed := True\<rparr>)
            (failed_listener_example
               \<lparr>exception := Some (PyExc (OtherError 1) (Some (PyExc RuntimeError None None)) None)\<rparr>)) =
       Inl (PyExc PresentationSessionClosedError None None)
   \<and> fst (receive_for 0 (Resumed []) HandlingStored (sub_example\<lparr>sub_closed := True\<rparr>)
            (failed_listener_example
               \<lparr>exception := Some (PyExc (OtherError 1) (Some (PyExc RuntimeError None None)) None)\<rparr>)) =
       Inl (PyExc PresentationSessionClosedError None
              (Some (PyExc (OtherError 1) (Some (PyExc RuntimeError None None)) None)))"
proof -
  have h: "\<not> sub_closed sub_example"
    "exception failed_listener_example = Some (new_exc (OtherError 1))"
    by (simp_all add: sub_example_def failed_listener_example_def)
  let ?L = "failed_listener_example
        \<lparr>exception := Some (PyExc (OtherError 1) (Some (PyExc RuntimeError None None)) None)\<rparr>"
  show ?thesis
    using C4_terminal_failure_observed [OF h, of 1 "Cancelled [] False" NotHandling "[]" 0
        "Resumed []" NotHandling ?L "[]"]
      C4_terminal_failure_observed [OF h, of 1 "Cancelled [] False" NotHandling "[]" 0
        "Resumed []" HandlingStored ?L "[]"]
    by (simp add: new_exc_def)
qed




section \<open>Iteration\<close>



section \<open>The exit of the background task\<close>

lemma finalizer_calls_append:
  "finalizer_calls (xs @ ys) = finalizer_calls xs @ finalizer_calls ys"
  by (simp add: finalizer_calls_def)

lemma finalizer_calls_simps:
  "finalizer_calls [] = []"
  "finalizer_calls (Log msg # xs) = finalizer_calls xs"
  "finalizer_calls (CancelTask t # xs) = finalizer_calls xs"
  "finalizer_calls (Finalize a # xs) = a # finalizer_calls xs"
  by (simp_all add: finalizer_calls_def)

lemma do_call_facts:
  assumes "do_call c impl = (impl1, effs1)"
  shows "transport_session impl1 = transport_session impl"
    and "finalizer_calls effs1 = []"
    and "impl_closed impl \<Longrightarrow> impl_closed impl1"
  using assms
  by (cases c;
      auto simp add: add_listener_def raise_if_closed_def remove_listener_def list_remove_def
        SubscriberImpl_close_def finalizer_calls_simps split: if_splits)+

lemma do_calls_facts:
  "do_calls cs impl = (impl1, effs1) \<Longrightarrow>
   transport_session impl1 = transport_session impl \<and> finalizer_calls effs1 = []
   \<and> (impl_closed impl \<longrightarrow> impl_closed impl1)"
proof (induction cs arbitrary: impl impl1 effs1)
  case Nil
  then show ?case by (simp add: finalizer_calls_simps)
next
  case (Cons c cs)
  obtain impl' effs' where c: "do_call c impl = (impl', effs')" by (cases "do_call c impl")
  obtain impl'' effs'' where cs: "do_calls cs impl' = (impl'', effs'')"
    by (cases "do_calls cs impl'")
  from Cons.prems c cs have e: "impl1 = impl''" "effs1 = effs' @ effs''" by simp_all
  from do_call_facts [OF c] Cons.IH [OF cs] show ?case
    by (simp add: e finalizer_calls_append)
qed

lemma loop_except_no_finalize: "finalizer_calls (snd (loop_except ex)) = []"
  by (simp add: loop_except_def finalizer_calls_simps)

lemma task_loop_facts:
  "task_loop deserialize evs impl heap effs = Some (exception0, impl1, heap1, effs1) \<Longrightarrow>
   transport_session impl1 = transport_session impl
   \<and> finalizer_calls effs1 = finalizer_calls effs"
proof (induction deserialize evs impl heap effs rule: task_loop.induct)
  case (1 deserialize impl heap effs)
  then show ?case by (simp split: if_splits)
next
  case (2 deserialize calls awaited evs impl heap effs)
  show ?case
  proof (cases "impl_closed impl")
    case True
    with "2.prems" show ?thesis by simp
  next
    case False
    obtain impl' effs' where dc: "do_calls calls impl = (impl', effs')"
      by (cases "do_calls calls impl")
    note f = do_calls_facts [OF dc]
    show ?thesis
    proof (cases awaited)
      case (Inl ex)
      with "2.prems" False dc f show ?thesis
        by (auto simp add: finalizer_calls_append loop_except_no_finalize)
    next
      case (Inr got)
      show ?thesis
      proof (cases got)
        case None
        with "2.prems" False dc Inr
        have "task_loop deserialize evs impl' heap (effs @ effs') =
                Some (exception0, impl1, heap1, effs1)"
          by simp
        from "2.IH"(1) [OF False dc [symmetric] Inr None this] f show ?thesis
          by (simp add: finalizer_calls_append)
      next
        case (Some tr)
        show ?thesis
        proof (cases "deserialize (fragmented_payload tr)")
          case (Inl ex)
          with "2.prems" False dc Inr Some f show ?thesis
            by (auto simp add: finalizer_calls_append loop_except_no_finalize)
        next
          case des: (Inr decoded)
          show ?thesis
          proof (cases decoded)
            case None
            with "2.prems" False dc Inr Some des
            have "task_loop deserialize evs
                    (impl'\<lparr>deserialization_failure_count := deserialization_failure_count impl' + 1\<rparr>)
                    heap (effs @ effs') = Some (exception0, impl1, heap1, effs1)"
              by simp
            from "2.IH"(2) [OF False dc [symmetric] Inr Some des None this] f show ?thesis
              by (simp add: finalizer_calls_append)
          next
            case msg: (Some message)
            with "2.prems" False dc Inr Some des
            have "task_loop deserialize evs impl'
                    (push_all message tr (listeners impl') heap) (effs @ effs') =
                  Some (exception0, impl1, heap1, effs1)"
              by simp
            from "2.IH"(3) [OF False dc [symmetric] Inr Some des msg this] f show ?thesis
              by (simp add: finalizer_calls_append)
          qed
        qed
      qed
    qed
  qed
qed

lemma store_exception_cell:
  "fold (\<lambda>r h. h(r := (h r)\<lparr>exception := Some x\<rparr>)) ls heap r =
     (if r \<in> set ls then (heap r)\<lparr>exception := Some x\<rparr> else heap r)"
  by (induction ls arbitrary: heap) auto

lemma task_exit_facts:
  "task_exit finalizer exception0 impl heap =
     (impl\<lparr>impl_closed := True\<rparr>,
      (\<lambda>r. if r \<in> set (listeners impl)
           then (heap r)\<lparr>exception :=
                  Some (terminal_failure exception0 (finalizer [transport_session impl]))\<rparr>
           else heap r),
      Finalize [transport_session impl]
        # (case finalizer [transport_session impl] of
             Some ex \<Rightarrow> [Log ''Failed to finalize''] | None \<Rightarrow> []))"
  by (auto simp add: task_exit_def Let_def store_exception_cell terminal_failure_def fun_eq_iff
      split: option.splits)

lemma task_loop_closed:
  "impl_closed impl \<Longrightarrow> task_loop deserialize evs impl heap effs = Some (None, impl, heap, effs)"
  by (cases evs) auto

lemma task_loop_exits_after_shutdown:
  assumes "impl_closed (fst (do_calls calls impl))"
  shows "task_loop deserialize ((calls, awaited) # evs) impl heap effs \<noteq> None"
  using assms
  by (auto simp add: task_loop_closed split: prod.splits sum.splits option.splits)

lemma task_loop_exits_on_raise:
  "task_loop deserialize (evs @ [(calls, Inl ex)]) impl heap effs \<noteq> None"
proof (induction deserialize evs impl heap effs rule: task_loop.induct)
  case (1 deserialize impl heap effs)
  show ?case by (simp split: prod.splits)
next
  case (2 deserialize calls' awaited evs impl heap effs)
  then show ?case
    by (auto split: prod.splits sum.splits option.splits)
qed

lemma do_call_cancel:
  assumes "do_call c impl = (impl1, effs1)"
  shows "impl_task impl1 = impl_task impl"
    and "impl_closed impl1 \<Longrightarrow> \<not> impl_closed impl \<Longrightarrow> CancelTask (impl_task impl) \<in> set effs1"
  using assms
  by (cases c;
      auto simp add: add_listener_def raise_if_closed_def remove_listener_def list_remove_def
        SubscriberImpl_close_def split: if_splits)+

lemma do_calls_cancel:
  "do_calls cs impl = (impl1, effs1) \<Longrightarrow>
   impl_task impl1 = impl_task impl
   \<and> (impl_closed impl1 \<and> \<not> impl_closed impl \<longrightarrow> CancelTask (impl_task impl) \<in> set effs1)"
proof (induction cs arbitrary: impl impl1 effs1)
  case Nil
  then show ?case by simp
next
  case (Cons c cs)
  obtain impl' effs' where c: "do_call c impl = (impl', effs')" by (cases "do_call c impl")
  obtain impl'' effs'' where cs: "do_calls cs impl' = (impl'', effs'')"
    by (cases "do_calls cs impl'")
  from Cons.prems c cs have e: "impl1 = impl''" "effs1 = effs' @ effs''" by simp_all
  from do_call_cancel [OF c] Cons.IH [OF cs] show ?case
    by (auto simp add: e)
qed

lemma task_loop_prefix:
  "task_loop deserialize evs impl heap effs = Some x \<Longrightarrow>
   task_loop deserialize (evs @ later) impl heap effs = Some x"
proof (induction deserialize evs impl heap effs rule: task_loop.induct)
  case (1 deserialize impl heap effs)
  then show ?case by (simp add: task_loop_closed split: if_splits)
next
  case (2 deserialize calls awaited evs impl heap effs)
  then show ?case
    by (auto split: prod.splits sum.splits option.splits if_splits)
qed

lemma task_loop_last:
  "task_loop deserialize evs impl heap effs = None \<Longrightarrow>
   task_loop deserialize (evs @ [(calls, awaited)]) impl heap effs =
     Some (exception0, impl1, heap1, effs1) \<Longrightarrow>
   exception0 = triggering_fault deserialize awaited"
proof (induction deserialize evs impl heap effs rule: task_loop.induct)
  case (1 deserialize impl heap effs)
  then show ?case
    by (auto simp add: triggering_fault_def loop_except_def
        split: prod.splits sum.splits option.splits if_splits)
next
  case (2 deserialize calls' awaited' evs impl heap effs)
  then show ?case
    by (auto split: prod.splits sum.splits option.splits if_splits)
qed

lemma task_loop_decompose:
  "\<not> impl_closed impl \<Longrightarrow> task_loop deserialize evs impl heap effs = Some x \<Longrightarrow>
   \<exists>evs0 calls awaited later.
      evs = evs0 @ (calls, awaited) # later
      \<and> task_loop deserialize evs0 impl heap effs = None
      \<and> task_loop deserialize (evs0 @ [(calls, awaited)]) impl heap effs = Some x"
proof (induction evs rule: rev_induct)
  case Nil
  then show ?case by simp
next
  case (snoc ev evs)
  obtain calls awaited where ev: "ev = (calls, awaited)" by (cases ev)
  show ?case
  proof (cases "task_loop deserialize evs impl heap effs")
    case None
    with snoc.prems ev
    have "evs @ [ev] = evs @ (calls, awaited) # []
          \<and> task_loop deserialize evs impl heap effs = None
          \<and> task_loop deserialize (evs @ [(calls, awaited)]) impl heap effs = Some x"
      by simp
    then show ?thesis by blast
  next
    case (Some y)
    from task_loop_prefix [OF Some, of "[ev]"] snoc.prems have "y = x" by simp
    with Some snoc.IH [OF snoc.prems(1)] obtain evs0 calls0 awaited0 later
      where d: "evs = evs0 @ (calls0, awaited0) # later"
        "task_loop deserialize evs0 impl heap effs = None"
        "task_loop deserialize (evs0 @ [(calls0, awaited0)]) impl heap effs = Some x"
      by blast
    from d(1) have "evs @ [ev] = evs0 @ (calls0, awaited0) # (later @ [ev])" by simp
    with d(2,3) show ?thesis by blast
  qed
qed

text \<open>
  Claim C1 as stated fails in two ways. When the finalizer raises, its exception is what
  the listeners get: after a cancellation, where no fault ended the loop, it stands in
  place of the closed error, and after a fault of the transport in place of that fault.
  And when the receiver is closed before the task has had its first step, the task is
  cancelled without entering its body: the closed flag is set, but the finalizer is
  never called and the registered listener gets no terminal failure.
\<close>

theorem C1_exit_counterexample:
  "triggering_fault deserialize_example (Inl (new_exc CancelledError)) = None
   \<and> observed (task_run (\<lambda>sessions. Some (new_exc (OtherError 7))) deserialize_example []
         [([], Inl (new_exc CancelledError))] impl_example heap_example)
     = Some (True, [5], [[7]], Some (new_exc (OtherError 7)))
   \<and> triggering_fault deserialize_example (Inl (new_exc (OtherError 1))) =
       Some (new_exc (OtherError 1))
   \<and> observed (task_run (\<lambda>sessions. Some (new_exc (OtherError 7))) deserialize_example []
         [([], Inl (new_exc (OtherError 1)))] impl_example heap_example)
     = Some (True, [5], [[7]], Some (new_exc (OtherError 7)))
   \<and> new_exc (OtherError 7) \<noteq> new_exc PresentationSessionClosedError
   \<and> new_exc (OtherError 7) \<noteq> new_exc (OtherError 1)
   \<and> observed (task_run (\<lambda>sessions. None) deserialize_example [Close]
         [([], Inl (new_exc CancelledError))] impl_example heap_example)
     = Some (True, [5], [], None)"
  by (simp add: observed_def task_run_def task_function_def task_exit_def loop_except_def
      impl_example_def new_exc_def heap_example_def triggering_fault_def
      SubscriberImpl_close_def finalizer_calls_def Listener_init_def)

text \<open>
  Claim C1, amended. Take a task whose cancellation was not requested before its first
  step, so that the loop is entered, and a run in which the loop is still going after the
  events \<open>evs\<close> and is left in the pass that is resumed with \<open>awaited\<close>. Then the value
  that the loop leaves in \<^verbatim>\<open>exception\<close> is the fault raised in that pass, a cancellation
  not counting as one; the task runs to its end with the closed flag set, whatever
  events would follow; among all effects of the run, those of the calls made by other
  tasks included, the finalizer is called exactly once, with the transport session; and
  every listener registered at that moment holds as terminal failure the exception the
  finalizer raised, if it raised one, else the fault of that pass, else a new closed
  error. Every exit of the loop of such a task on a receiver that was open at first
  is of this kind. Further, an await that raises always ends the task, and so does a
  suspension during which the object was closed, by \<^verbatim>\<open>close\<close> or by the removal of the
  last listener; and the calls of other tasks never call the finalizer themselves.
\<close>

theorem C1_loop_exit:
  "(\<not> cancelled_before_start impl before
    \<and> task_loop deserialize evs (fst (do_calls before impl)) heap [] = None
    \<and> task_loop deserialize (evs @ [(calls, awaited)]) (fst (do_calls before impl)) heap [] =
        Some (exception0, impl1, heap1, effs1) \<longrightarrow>
      exception0 = triggering_fault deserialize awaited
      \<and> (\<exists>heap2 effs2.
             task_run finalizer deserialize before (evs @ (calls, awaited) # later) impl heap =
               Some (impl1\<lparr>impl_closed := True\<rparr>, heap2, effs2)
           \<and> finalizer_calls effs2 = [[transport_session impl]]
           \<and> (\<forall>r \<in> set (listeners impl1).
                 exception (heap2 r) =
                   Some (terminal_failure (triggering_fault deserialize awaited)
                           (finalizer [transport_session impl])))))
   \<and> (\<not> impl_closed impl \<and> \<not> cancelled_before_start impl before
      \<and> task_loop deserialize evs' (fst (do_calls before impl)) heap [] = Some x \<longrightarrow>
        (\<exists>evs0 calls0 awaited0 later0.
            evs' = evs0 @ (calls0, awaited0) # later0
          \<and> task_loop deserialize evs0 (fst (do_calls before impl)) heap [] = None
          \<and> task_loop deserialize (evs0 @ [(calls0, awaited0)]) (fst (do_calls before impl))
               heap [] = Some x))
   \<and> (\<not> cancelled_before_start impl before \<longrightarrow>
        task_run finalizer deserialize before (evs @ [(calls, Inl ex)]) impl heap \<noteq> None)
   \<and> (\<not> cancelled_before_start impl before
      \<and> impl_closed (fst (do_calls calls (fst (do_calls before impl)))) \<longrightarrow>
        task_run finalizer deserialize before ((calls, awaited) # evs) impl heap \<noteq> None)
   \<and> finalizer_calls (snd (do_calls calls impl)) = []"
proof -
  obtain impl0 effs0 where dc: "do_calls before impl = (impl0, effs0)"
    by (cases "do_calls before impl")
  note f0 = do_calls_facts [OF dc]
  note c0 = do_calls_cancel [OF dc]
  have run: "task_run finalizer deserialize before es impl heap =
      (case task_function finalizer deserialize es impl0 heap of
         None \<Rightarrow> None
       | Some (impl2, heap2, effs2) \<Rightarrow> Some (impl2, heap2, effs0 @ effs2))"
    if "\<not> cancelled_before_start impl before" for es
    using that by (simp add: task_run_def cancelled_before_start_def dc)
  have exit_code: "exception0 = triggering_fault deserialize awaited
      \<and> (\<exists>heap2 effs2.
             task_run finalizer deserialize before (evs @ (calls, awaited) # later) impl heap =
               Some (impl1\<lparr>impl_closed := True\<rparr>, heap2, effs2)
           \<and> finalizer_calls effs2 = [[transport_session impl]]
           \<and> (\<forall>r \<in> set (listeners impl1).
                 exception (heap2 r) =
                   Some (terminal_failure (triggering_fault deserialize awaited)
                           (finalizer [transport_session impl]))))"
    if started: "\<not> cancelled_before_start impl before"
      and running: "task_loop deserialize evs (fst (do_calls before impl)) heap [] = None"
      and left: "task_loop deserialize (evs @ [(calls, awaited)]) (fst (do_calls before impl))
                   heap [] = Some (exception0, impl1, heap1, effs1)"
  proof -
    from running left have e0: "exception0 = triggering_fault deserialize awaited"
      by (rule task_loop_last)
    from left have left0: "task_loop deserialize (evs @ [(calls, awaited)]) impl0 heap [] =
        Some (exception0, impl1, heap1, effs1)"
      by (simp add: dc)
    from task_loop_prefix [OF left0, of later]
    have loop: "task_loop deserialize (evs @ (calls, awaited) # later) impl0 heap [] =
        Some (exception0, impl1, heap1, effs1)"
      by simp
    from task_loop_facts [OF loop] f0
    have f: "transport_session impl1 = transport_session impl" "finalizer_calls effs1 = []"
      "finalizer_calls effs0 = []"
      by (simp_all add: finalizer_calls_simps)
    have "finalizer_calls
            (case finalizer [transport_session impl] of
               Some ex \<Rightarrow> [Log ''Failed to finalize''] | None \<Rightarrow> []) = []"
      by (simp add: finalizer_calls_simps split: option.splits)
    then show ?thesis
      by (simp add: run [OF started] task_function_def loop task_exit_facts f e0
          finalizer_calls_append finalizer_calls_simps)
  qed
  have every: "\<exists>evs0 calls0 awaited0 later0.
            evs' = evs0 @ (calls0, awaited0) # later0
          \<and> task_loop deserialize evs0 (fst (do_calls before impl)) heap [] = None
          \<and> task_loop deserialize (evs0 @ [(calls0, awaited0)]) (fst (do_calls before impl))
               heap [] = Some x"
    if "\<not> impl_closed impl" "\<not> cancelled_before_start impl before"
      "task_loop deserialize evs' (fst (do_calls before impl)) heap [] = Some x"
  proof -
    from that(1,2) c0 have "\<not> impl_closed impl0"
      by (auto simp add: cancelled_before_start_def dc)
    from task_loop_decompose [OF this, of deserialize evs' heap "[]" x] that(3) show ?thesis
      by (simp add: dc)
  qed
  have raised: "task_run finalizer deserialize before (evs @ [(calls, Inl ex)]) impl heap \<noteq> None"
    if "\<not> cancelled_before_start impl before"
    using task_loop_exits_on_raise [of deserialize evs calls ex impl0 heap "[]"]
    by (auto simp add: run [OF that] task_function_def task_exit_facts)
  have shut: "task_run finalizer deserialize before ((calls, awaited) # evs) impl heap \<noteq> None"
    if "\<not> cancelled_before_start impl before"
      "impl_closed (fst (do_calls calls (fst (do_calls before impl))))"
  proof -
    from that(2) have "impl_closed (fst (do_calls calls impl0))" by (simp add: dc)
    from task_loop_exits_after_shutdown [OF this, of deserialize awaited evs heap "[]"]
    show ?thesis
      by (auto simp add: run [OF that(1)] task_function_def task_exit_facts)
  qed
  have others: "finalizer_calls (snd (do_calls calls impl)) = []"
    using do_calls_facts [of calls impl "fst (do_calls calls impl)" "snd (do_calls calls impl)"]
    by simp
  from exit_code every raised shut others show ?thesis by blast
qed

text \<open>
  The four ways out: an explicit close with the cancellation delivered, the removal of
  the last listener with the cancellation lost, a fault of the transport after one
  delivered message, and a deserializer that raises, with a finalizer that raises too.
\<close>

theorem C1_loop_exit_witness:
  "observed (task_run (\<lambda>sessions. None) deserialize_example [AddListener 6]
       [([Close], Inl (new_exc CancelledError))] impl_example heap_example) =
     Some (True, [5, 6], [[7]], Some (new_exc PresentationSessionClosedError))
   \<and> observed (task_run (\<lambda>sessions. None) deserialize_example []
       [([RemoveListener 5], Inr None)] impl_example heap_example) =
     Some (True, [], [[7]], None)
   \<and> observed (task_run (\<lambda>sessions. None) deserialize_example []
       [([], Inr (Some (TransferFrom [[1]]))), ([], Inl (new_exc (OtherError 1)))]
       impl_example heap_example) =
     Some (True, [5], [[7]], Some (new_exc (OtherError 1)))
   \<and> observed (task_run (\<lambda>sessions. Some (new_exc (OtherError 7))) deserialize_example []
       [([], Inr (Some (TransferFrom [[]])))] impl_example heap_example) =
     Some (True, [5], [[7]], Some (new_exc (OtherError 7)))"
proof -
  let ?ok = "\<lambda>sessions :: nat list. None :: pyexc option"
  let ?bad = "\<lambda>sessions :: nat list. Some (new_exc (OtherError 7))"
  have h1: "\<not> cancelled_before_start impl_example [AddListener 6]
      \<and> task_loop deserialize_example [] (fst (do_calls [AddListener 6] impl_example))
          heap_example [] = None
      \<and> task_loop deserialize_example ([] @ [([Close], Inl (new_exc CancelledError))])
          (fst (do_calls [AddListener 6] impl_example)) heap_example [] =
        Some (None, impl_example\<lparr>listeners := [5, 6], impl_closed := True\<rparr>, heap_example,
              [CancelTask 3, Log ''Cancelling the subscriber task''])"
    by (simp add: cancelled_before_start_def impl_example_def add_listener_def
        raise_if_closed_def SubscriberImpl_close_def loop_except_def new_exc_def)
  have h2: "\<not> cancelled_before_start impl_example []
      \<and> task_loop deserialize_example [] (fst (do_calls [] impl_example)) heap_example [] = None
      \<and> task_loop deserialize_example ([] @ [([RemoveListener 5], Inr None)])
          (fst (do_calls [] impl_example)) heap_example [] =
        Some (None, impl_example\<lparr>listeners := [], impl_closed := True\<rparr>, heap_example,
              [CancelTask 3])"
    by (simp add: cancelled_before_start_def impl_example_def remove_listener_def
        list_remove_def)
  have h3: "\<not> cancelled_before_start impl_example []
      \<and> task_loop deserialize_example [([], Inr (Some (TransferFrom [[1]])))]
          (fst (do_calls [] impl_example)) heap_example [] = None
      \<and> task_loop deserialize_example
          ([([], Inr (Some (TransferFrom [[1]])))] @ [([], Inl (new_exc (OtherError 1)))])
          (fst (do_calls [] impl_example)) heap_example [] =
        Some (Some (new_exc (OtherError 1)), impl_example,
              push_all 1 (TransferFrom [[1]]) [5] heap_example,
              [Log ''Fatal error in the subscriber task''])"
    by (simp add: cancelled_before_start_def impl_example_def loop_except_def new_exc_def
        deserialize_example_def)
  have h4: "\<not> cancelled_before_start impl_example []
      \<and> task_loop deserialize_example [] (fst (do_calls [] impl_example)) heap_example [] = None
      \<and> task_loop deserialize_example ([] @ [([], Inr (Some (TransferFrom [[]])))])
          (fst (do_calls [] impl_example)) heap_example [] =
        Some (Some (new_exc (OtherError 2)), impl_example, heap_example,
              [Log ''Fatal error in the subscriber task''])"
    by (simp add: cancelled_before_start_def impl_example_def loop_except_def new_exc_def
        deserialize_example_def)
  have s: "transport_session impl_example = 7" "listeners impl_example = [5]"
    by (simp_all add: impl_example_def)
  note t1 = C1_loop_exit [where finalizer = ?ok and later = "[]", THEN conjunct1, THEN mp, OF h1]
  note t2 = C1_loop_exit [where finalizer = ?ok and later = "[]", THEN conjunct1, THEN mp, OF h2]
  note t3 = C1_loop_exit [where finalizer = ?ok and later = "[]", THEN conjunct1, THEN mp, OF h3]
  note t4 = C1_loop_exit [where finalizer = ?bad and later = "[]", THEN conjunct1, THEN mp, OF h4]
  from t1 have w1: "observed (task_run ?ok deserialize_example [AddListener 6]
       [([Close], Inl (new_exc CancelledError))] impl_example heap_example) =
     Some (True, [5, 6], [[7]], Some (new_exc PresentationSessionClosedError))"
    by (auto simp add: observed_def s terminal_failure_def triggering_fault_def new_exc_def
        deserialize_example_def)
  have tf2: "task_run ?ok deserialize_example [] [([RemoveListener 5], Inr None)]
               impl_example heap_example =
             Some (impl_example\<lparr>listeners := [], impl_closed := True\<rparr>, heap_example,
                   [CancelTask 3, Finalize [7]])"
    by (simp add: task_run_def task_function_def task_exit_def impl_example_def
        remove_listener_def list_remove_def)
  from t2 have w2: "observed (task_run ?ok deserialize_example []
       [([RemoveListener 5], Inr None)] impl_example heap_example) =
     Some (True, [], [[7]], None)"
    unfolding tf2
    by (auto simp add: observed_def heap_example_def Listener_init_def finalizer_calls_simps)
  from t3 have w3: "observed (task_run ?ok deserialize_example []
       [([], Inr (Some (TransferFrom [[1]]))), ([], Inl (new_exc (OtherError 1)))]
       impl_example heap_example) =
     Some (True, [5], [[7]], Some (new_exc (OtherError 1)))"
    by (auto simp add: observed_def s terminal_failure_def triggering_fault_def new_exc_def
        deserialize_example_def)
  from t4 have w4: "observed (task_run ?bad deserialize_example []
       [([], Inr (Some (TransferFrom [[]])))] impl_example heap_example) =
     Some (True, [5], [[7]], Some (new_exc (OtherError 7)))"
    by (auto simp add: observed_def s terminal_failure_def triggering_fault_def new_exc_def
        deserialize_example_def)
  from w1 w2 w3 w4 show ?thesis by simp
qed

section \<open>The history of a listener\<close>

lemma never_regresses_refl: "never_regresses L L"
  by (simp add: never_regresses_def)

lemma never_regresses_trans:
  "never_regresses L1 L2 \<Longrightarrow> never_regresses L2 L3 \<Longrightarrow> never_regresses L1 L3"
  by (auto simp add: never_regresses_def)

lemma never_regresses_step: "never_regresses L (listener_step x L)"
  by (cases x)
    (auto simp add: never_regresses_def push_def take_head_def split: sum.splits option.splits)

lemma never_regresses_run: "never_regresses L (listener_run xs L)"
proof (induction xs arbitrary: L)
  case Nil
  show ?case by (simp add: listener_run_Nil never_regresses_refl)
next
  case (Cons x xs)
  from never_regresses_step [of L x] Cons.IH [of "listener_step x L"] show ?case
    unfolding listener_run_Cons by (rule never_regresses_trans)
qed

lemma run_none: "\<exists>xs. L = listener_run xs L"
proof
  show "L = listener_run [] L" by (simp add: listener_run_Nil)
qed

lemma push_all_cell: "\<exists>xs. push_all message tr ls heap r = listener_run xs (heap r)"
proof (induction ls arbitrary: heap)
  case Nil
  have "push_all message tr [] heap r = listener_run [] (heap r)"
    by (simp add: push_all_def listener_run_Nil)
  then show ?case ..
next
  case (Cons a ls)
  let ?h = "heap(a := push message tr (heap a))"
  from Cons.IH [of ?h] obtain xs where xs: "push_all message tr ls ?h r = listener_run xs (?h r)" ..
  have step: "push_all message tr (a # ls) heap = push_all message tr ls ?h"
    by (simp add: push_all_def)
  show ?case
  proof (cases "r = a")
    case True
    then have "push_all message tr (a # ls) heap r = listener_run (LoopPush message tr # xs) (heap r)"
      using xs by (simp add: step listener_run_Cons)
    then show ?thesis ..
  next
    case False
    then have "push_all message tr (a # ls) heap r = listener_run xs (heap r)"
      using xs by (simp add: step)
    then show ?thesis ..
  qed
qed

lemma task_exit_cell:
  "\<exists>xs. fst (snd (task_exit finalizer exception0 impl heap)) r = listener_run xs (heap r)"
proof (cases "r \<in> set (listeners impl)")
  case True
  then have "fst (snd (task_exit finalizer exception0 impl heap)) r =
      listener_run [LoopExit (terminal_failure exception0 (finalizer [transport_session impl]))] (heap r)"
    by (simp add: task_exit_facts listener_run_Cons listener_run_Nil)
  then show ?thesis ..
next
  case False
  then have "fst (snd (task_exit finalizer exception0 impl heap)) r = listener_run [] (heap r)"
    by (simp add: task_exit_facts listener_run_Nil)
  then show ?thesis ..
qed

lemma task_loop_cell:
  "task_loop deserialize evs impl heap effs = Some (exception0, impl1, heap1, effs1) \<Longrightarrow>
   \<exists>xs. heap1 r = listener_run xs (heap r)"
proof (induction deserialize evs impl heap effs rule: task_loop.induct)
  case (1 deserialize impl heap effs)
  then have "heap1 r = listener_run [] (heap r)"
    by (simp add: listener_run_Nil split: if_splits)
  then show ?case ..
next
  case (2 deserialize calls awaited evs impl heap effs)
  have same: "\<exists>xs. heap1 r = listener_run xs (heap r)" if "heap1 = heap"
    using that run_none [of "heap r"] by simp
  show ?case
  proof (cases "impl_closed impl")
    case True
    with "2.prems" have "heap1 = heap" by simp
    then show ?thesis by (rule same)
  next
    case False
    obtain impl' effs' where dc: "do_calls calls impl = (impl', effs')"
      by (cases "do_calls calls impl")
    show ?thesis
    proof (cases awaited)
      case (Inl ex)
      with "2.prems" False dc have "heap1 = heap" by simp
      then show ?thesis by (rule same)
    next
      case (Inr got)
      show ?thesis
      proof (cases got)
        case None
        with "2.prems" False dc Inr
        have "task_loop deserialize evs impl' heap (effs @ effs') =
                Some (exception0, impl1, heap1, effs1)"
          by simp
        from "2.IH"(1) [OF False dc [symmetric] Inr None this] show ?thesis .
      next
        case (Some tr)
        show ?thesis
        proof (cases "deserialize (fragmented_payload tr)")
          case (Inl ex)
          with "2.prems" False dc Inr Some have "heap1 = heap" by simp
          then show ?thesis by (rule same)
        next
          case des: (Inr decoded)
          show ?thesis
          proof (cases decoded)
            case None
            with "2.prems" False dc Inr Some des
            have "task_loop deserialize evs
                    (impl'\<lparr>deserialization_failure_count := deserialization_failure_count impl' + 1\<rparr>)
                    heap (effs @ effs') = Some (exception0, impl1, heap1, effs1)"
              by simp
            from "2.IH"(2) [OF False dc [symmetric] Inr Some des None this] show ?thesis .
          next
            case msg: (Some message)
            let ?h = "push_all message tr (listeners impl') heap"
            from "2.prems" False dc Inr Some des msg
            have "task_loop deserialize evs impl' ?h (effs @ effs') =
                  Some (exception0, impl1, heap1, effs1)"
              by simp
            from "2.IH"(3) [OF False dc [symmetric] Inr Some des msg this]
            obtain ys where ys: "heap1 r = listener_run ys (?h r)" ..
            from push_all_cell [of message tr "listeners impl'" heap r]
            obtain xs where xs: "?h r = listener_run xs (heap r)" ..
            have "heap1 r = listener_run (xs @ ys) (heap r)"
              by (simp add: ys xs listener_run_append)
            then show ?thesis ..
          qed
        qed
      qed
    qed
  qed
qed

lemma task_function_cell:
  assumes "task_function finalizer deserialize evs impl heap = Some (impl2, heap2, effs2)"
  shows "\<exists>xs. heap2 r = listener_run xs (heap r)"
proof -
  from assms obtain exception0 impl1 heap1 effs1
    where loop: "task_loop deserialize evs impl heap [] = Some (exception0, impl1, heap1, effs1)"
      and ex: "heap2 = fst (snd (task_exit finalizer exception0 impl1 heap1))"
    by (auto simp add: task_function_def split: option.splits prod.splits)
  from task_loop_cell [OF loop, of r] obtain xs where xs: "heap1 r = listener_run xs (heap r)" ..
  from task_exit_cell [of finalizer exception0 impl1 heap1 r]
  obtain ys where ys: "heap2 r = listener_run ys (heap1 r)" unfolding ex ..
  have "heap2 r = listener_run (xs @ ys) (heap r)"
    by (simp add: ys xs listener_run_append)
  then show ?thesis ..
qed

lemma interim_run: "fold interim_apply acts L = listener_run (map interim_op acts) L"
proof (induction acts arbitrary: L)
  case Nil
  show ?case by (simp add: listener_run_Nil)
next
  case (Cons a acts)
  have "interim_apply a L = listener_step (interim_op a) L" by (cases a) simp_all
  with Cons.IH [of "interim_apply a L"] show ?case by (simp add: listener_run_Cons)
qed

lemma task_run_cell:
  assumes "task_run finalizer deserialize before evs impl heap = Some (impl2, heap2, effs2)"
  shows "\<exists>xs. heap2 r = listener_run xs (heap r)"
proof (cases "cancelled_before_start impl before")
  case True
  with assms have "heap2 = heap"
    by (auto simp add: task_run_def cancelled_before_start_def split: prod.splits)
  then show ?thesis using run_none [of "heap r"] by simp
next
  case False
  with assms obtain impl0 effs
    where "task_function finalizer deserialize evs impl0 heap = Some (impl2, heap2, effs)"
    by (auto simp add: task_run_def cancelled_before_start_def
        split: prod.splits option.splits)
  then show ?thesis by (rule task_function_cell)
qed

lemma raise_if_closed_or_failed_cell:
  "\<exists>xs. snd (snd (raise_if_closed_or_failed h s L)) = listener_run xs L"
proof (cases "\<not> sub_closed s \<and> exception L \<noteq> None")
  case True
  then have "snd (snd (raise_if_closed_or_failed h s L)) = listener_run [OwnerRaise h] L"
    by (auto simp add: raise_if_closed_or_failed_def listener_run_Cons listener_run_Nil)
  then show ?thesis ..
next
  case False
  then have "snd (snd (raise_if_closed_or_failed h s L)) = L"
    by (auto simp add: raise_if_closed_or_failed_def)
  then show ?thesis using run_none [of L] by simp
qed

lemma wait_for_get_cell: "\<exists>xs. snd (wait_for_get w L) = listener_run xs L"
proof (cases w)
  case (Resumed acts)
  have "snd (wait_for_get w L) = listener_run (map interim_op acts @ [OwnerGet]) L"
    by (simp add: Resumed wait_for_get_def interim_run listener_run_append listener_run_Cons
        listener_run_Nil take_head_def split: sum.splits prod.splits)
  then show ?thesis ..
next
  case (Cancelled acts taken)
  have "snd (wait_for_get w L) =
      listener_run (map interim_op acts @ (if taken then [OwnerGet] else [])) L"
    by (simp add: Cancelled wait_for_get_def interim_run listener_run_append listener_run_Cons
        listener_run_Nil)
  then show ?thesis ..
qed

lemma receive_for_cell:
  "\<exists>xs. fst (snd (snd (receive_for t w h s L))) = listener_run xs L"
proof -
  obtain r s0 L0 where pre: "raise_if_closed_or_failed h s L = (r, s0, L0)"
    by (cases "raise_if_closed_or_failed h s L")
  from raise_if_closed_or_failed_cell [of h s L] pre
  obtain xs where xs: "L0 = listener_run xs L" by auto
  show ?thesis
  proof (cases r)
    case (Inl ex)
    with pre xs have "fst (snd (snd (receive_for t w h s L))) = listener_run xs L"
      by (simp add: receive_for_def)
    then show ?thesis ..
  next
    case (Inr u)
    then have same: "L0 = L"
      using pre by (auto simp add: raise_if_closed_or_failed_def split: if_splits option.splits)
    show ?thesis
    proof (cases "0 < t")
      case True
      from wait_for_get_cell [of w L] obtain ys where ys: "snd (wait_for_get w L) = listener_run ys L" ..
      from True Inr pre have "fst (snd (snd (receive_for t w h s L))) = snd (wait_for_get w L)"
        by (auto simp add: receive_for_def split: prod.splits sum.splits)
      with ys show ?thesis by auto
    next
      case False
      with Inr pre have "fst (snd (snd (receive_for t w h s L))) = listener_run [OwnerGet] L"
        by (auto simp add: receive_for_def listener_run_Cons listener_run_Nil take_head_def
            split: prod.splits sum.splits)
      then show ?thesis ..
    qed
  qed
qed

lemma receive_cell:
  "receive ws h s L = Some (res, s1, L1) \<Longrightarrow> \<exists>xs. L1 = listener_run xs L"
proof (induction ws arbitrary: s L)
  case Nil
  then have "L1 = snd (snd (raise_if_closed_or_failed h s L))"
    by (auto split: prod.splits sum.splits)
  with raise_if_closed_or_failed_cell [of h s L] show ?case by simp
next
  case (Cons w ws)
  obtain r s' L' susp where rf: "receive_for RECEIVE_TIMEOUT w h s L = (r, s', L', susp)"
    by (cases "receive_for RECEIVE_TIMEOUT w h s L")
  from receive_for_cell [of RECEIVE_TIMEOUT w h s L] rf
  obtain xs where xs: "L' = listener_run xs L" by auto
  show ?case
  proof (cases "r = Inr None")
    case True
    with Cons.prems rf have "receive ws h s' L' = Some (res, s1, L1)" by simp
    from Cons.IH [OF this] obtain ys where "L1 = listener_run ys L'" ..
    then have "L1 = listener_run (xs @ ys) L" by (simp add: xs listener_run_append)
    then show ?thesis ..
  next
    case False
    with Cons.prems rf have "L1 = L'"
      by (auto split: sum.splits option.splits)
    with xs show ?thesis by blast
  qed
qed

text \<open>
  Claim C9. Along every sequence of operations on a listener neither counter decreases
  and a terminal failure that is set stays set. The operations of the module are such
  sequences: a whole run of the background task acts on each listener of the store as a
  sequence of listener operations, and so do \<^verbatim>\<open>receive_for\<close> and \<^verbatim>\<open>receive\<close> of the owner
  on its own listener. Hence the same holds across each of them.
\<close>

theorem C9_listener_monotone:
  "never_regresses (listener_run xs L) (listener_run (xs @ ys) L)
   \<and> (task_function finalizer deserialize evs impl heap = Some (impl2, heap2, effs2) \<longrightarrow>
        never_regresses (heap r) (heap2 r))
   \<and> never_regresses L (fst (snd (snd (receive_for t w h s L))))
   \<and> (receive ws h s L = Some (res, s1, L1) \<longrightarrow> never_regresses L L1)
   \<and> (task_run finalizer deserialize before evs impl heap = Some (impl3, heap3, effs3) \<longrightarrow>
        never_regresses (heap r) (heap3 r))"
proof -
  have a: "never_regresses (listener_run xs L) (listener_run (xs @ ys) L)"
    unfolding listener_run_append by (rule never_regresses_run)
  have b: "never_regresses (heap r) (heap2 r)"
    if "task_function finalizer deserialize evs impl heap = Some (impl2, heap2, effs2)"
  proof -
    from task_function_cell [OF that, of r] obtain zs where "heap2 r = listener_run zs (heap r)" ..
    then show ?thesis by (simp add: never_regresses_run)
  qed
  have c: "never_regresses L (fst (snd (snd (receive_for t w h s L))))"
  proof -
    from receive_for_cell [of t w h s L]
    obtain zs where "fst (snd (snd (receive_for t w h s L))) = listener_run zs L" ..
    then show ?thesis by (simp add: never_regresses_run)
  qed
  have d: "never_regresses L L1" if "receive ws h s L = Some (res, s1, L1)"
  proof -
    from receive_cell [OF that] obtain zs where "L1 = listener_run zs L" ..
    then show ?thesis by (simp add: never_regresses_run)
  qed
  have e: "never_regresses (heap r) (heap3 r)"
    if "task_run finalizer deserialize before evs impl heap = Some (impl3, heap3, effs3)"
  proof -
    from task_run_cell [OF that, of r] obtain zs where "heap3 r = listener_run zs (heap r)" ..
    then show ?thesis by (simp add: never_regresses_run)
  qed
  from a b c d e show ?thesis by blast
qed

text \<open>A failed listener that is read and pushed to; a run of the task; a receive call.\<close>

theorem C9_listener_monotone_witness:
  "never_regresses (listener_run [LoopExit (new_exc (OtherError 1))] listener_example)
     (listener_run ([LoopExit (new_exc (OtherError 1))]
                    @ [OwnerGet, LoopPush 30 (TransferFrom []), OwnerRaise NotHandling,
                       LoopPush 40 (TransferFrom []), OwnerGet])
        listener_example)
   \<and> exception (listener_run [LoopExit (new_exc (OtherError 1))] listener_example) \<noteq> None
   \<and> map_option (\<lambda>(impl2, heap2, effs2). never_regresses (heap_example 5) (heap2 5))
       (task_function (\<lambda>sessions. None) deserialize_example
          [([], Inr (Some (TransferFrom [[1]]))), ([], Inl (new_exc (OtherError 1)))]
          impl_example heap_example) = Some True
   \<and> map_option (\<lambda>(res, s1, L1). never_regresses listener_example L1)
       (receive [Resumed [Pushed 30 (TransferFrom [])]] NotHandling sub_example listener_example)
       = Some True
   \<and> map_option (\<lambda>(impl3, heap3, effs3). never_regresses (heap_example 5) (heap3 5))
       (task_run (\<lambda>sessions. None) deserialize_example []
          [([], Inr (Some (TransferFrom [[1]]))), ([], Inl (new_exc (OtherError 1)))]
          impl_example heap_example) = Some True"
proof -
  let ?ok = "\<lambda>sessions :: nat list. None :: pyexc option"
  let ?evs = "[([], Inr (Some (TransferFrom [[1]]))), ([], Inl (new_exc (OtherError 1)))]"
  have "task_function ?ok deserialize_example ?evs impl_example heap_example \<noteq> None"
    by (simp add: task_function_def task_exit_facts impl_example_def deserialize_example_def)
  then obtain impl2 heap2 effs2
    where tf: "task_function ?ok deserialize_example ?evs impl_example heap_example =
                 Some (impl2, heap2, effs2)"
    by auto
  have tr: "task_run ?ok deserialize_example [] ?evs impl_example heap_example =
              Some (impl2, heap2, effs2)"
    using tf by (simp add: task_run_def)
  have "receive [Resumed [Pushed 30 (TransferFrom [])]] NotHandling sub_example listener_example
          \<noteq> None"
    by (simp add: receive_for_def raise_if_closed_or_failed_def wait_for_get_def get_nowait_def
        push_def put_nowait_def Queue_full_def qsize_def RECEIVE_TIMEOUT_def sub_example_def
        listener_example_def)
  then obtain res s1 L1
    where rc: "receive [Resumed [Pushed 30 (TransferFrom [])]] NotHandling sub_example
                 listener_example = Some (res, s1, L1)"
    by auto
  note t = C9_listener_monotone [of "[LoopExit (new_exc (OtherError 1))]" listener_example
      "[OwnerGet, LoopPush 30 (TransferFrom []), OwnerRaise NotHandling,
        LoopPush 40 (TransferFrom []), OwnerGet]"
      ?ok deserialize_example ?evs impl_example heap_example impl2 heap2 effs2 5
      0 "Cancelled [] False" NotHandling sub_example "[Resumed [Pushed 30 (TransferFrom [])]]"
      res s1 L1 "[]" impl2 heap2 effs2]
  have e: "exception (listener_run [LoopExit (new_exc (OtherError 1))] listener_example) \<noteq> None"
    by (simp add: listener_run_def)
  from t tf tr rc e show ?thesis by simp
qed

end
